theory Spec2Isabelle
  imports Complex_Main "HOL-Library.Word" "HOL-Library.Sublist"
begin

section \<open>The in-memory credential pool (internal/crawler/token_manager.go)\<close>

text \<open>
  Go strings are byte strings: \<open>string\<close>. The crawler instance keeps the working set of
  credentials in \<open>Tokens\<close> (a slice, so order and repetitions are kept), the in-memory
  invalid marks in \<open>InvalidTokens\<close> (a Go \<open>map[string]bool\<close>: a missing key reads as
  \<open>false\<close>, so the map is a total function into \<open>bool\<close>), the latch \<open>AllTokensFailed\<close>
  and the \<open>int32\<close> batch counters, which \<open>atomic.AddInt32\<close> wraps around.
\<close>

record LinkedInCrawler =
  Tokens :: "string list"
  InvalidTokens :: "string \<Rightarrow> bool"
  AllTokensFailed :: bool
  Stats_Processed :: "32 word"
  Stats_Success :: "32 word"
  Stats_Failed :: "32 word"

text \<open>
  \<open>GetToken\<close>: the loop collects the entries that are not marked invalid; with none left
  the function falls back to \<open>Tokens[0]\<close> (or the empty string for an empty pool). The
  argument \<open>r\<close> is the number the freshly seeded generator draws; \<open>r.Intn(n)\<close> lies in
  \<open>[0, n)\<close>, written \<open>r mod n\<close>.
\<close>

definition GetToken :: "nat \<Rightarrow> LinkedInCrawler \<Rightarrow> string" where
  "GetToken r lc =
     (let validTokens = filter (\<lambda>token. \<not> InvalidTokens lc token) (Tokens lc) in
      if length validTokens = 0 then
        (case Tokens lc of [] \<Rightarrow> [] | t0 # _ \<Rightarrow> t0)
      else validTokens ! (r mod length validTokens))"

definition MarkTokenAsInvalid :: "string \<Rightarrow> LinkedInCrawler \<Rightarrow> LinkedInCrawler" where
  "MarkTokenAsInvalid token lc = lc\<lparr>InvalidTokens := (InvalidTokens lc)(token := True)\<rparr>"

definition GetValidTokenCount :: "LinkedInCrawler \<Rightarrow> int" where
  "GetValidTokenCount lc = int (length (filter (\<lambda>token. \<not> InvalidTokens lc token) (Tokens lc)))"

text \<open>
  \<open>CheckIfAllTokensInvalid\<close> counts the marked entries and sets the latch when the count
  reaches the size of the pool (so an empty pool latches at once).
\<close>

definition CheckIfAllTokensInvalid :: "LinkedInCrawler \<Rightarrow> bool \<times> LinkedInCrawler" where
  "CheckIfAllTokensInvalid lc =
     (let invalidCount = length (filter (\<lambda>token. InvalidTokens lc token) (Tokens lc)) in
      if invalidCount \<ge> length (Tokens lc) then (True, lc\<lparr>AllTokensFailed := True\<rparr>)
      else (False, lc))"

text \<open>A pool for the concrete runs below: entries \<open>pool\<close>, marks \<open>bad\<close>, counters at zero.\<close>

definition mk_crawler :: "string list \<Rightarrow> string list \<Rightarrow> LinkedInCrawler" where
  "mk_crawler pool bad =
     \<lparr>Tokens = pool, InvalidTokens = (\<lambda>token. token \<in> set bad), AllTokensFailed = False,
      Stats_Processed = 0, Stats_Success = 0, Stats_Failed = 0\<rparr>"

section \<open>The profile parser (internal/crawler/profile_extractor.go)\<close>

datatype go_error =
    ErrAllTokensFailed | ErrContext | ErrSemaphore | ErrTransport | ErrStatus int
  | ErrReadBody | ErrJSON | ErrNoDatabase | ErrReadFile | ErrNoTokens | ErrStore | ErrFile

text \<open>
  \<open>json.Unmarshal\<close> into \<open>map[string]interface{}\<close> stores \<open>nil\<close>, \<open>bool\<close>, \<open>float64\<close>,
  \<open>string\<close>, \<open>[]interface{}\<close> and \<open>map[string]interface{}\<close>. A map is kept as an
  association list read with \<open>map_of\<close>. JSON numbers are finite \<open>float64\<close> values; every
  finite \<open>float64\<close> is a real number, so the numbers are modelled in \<open>real\<close> (a
  statement for every real number covers every \<open>float64\<close>).
\<close>

datatype iface =
    GoNil | GoBool bool | GoFloat64 real | GoString string
  | GoSlice "iface list" | GoMap "(string \<times> iface) list"

record ProfileData =
  User :: string
  LinkedInURL :: string
  ConnectionCount :: string
  Location :: string

definition zero_ProfileData :: ProfileData where
  "zero_ProfileData = \<lparr>User = [], LinkedInURL = [], ConnectionCount = [], Location = []\<rparr>"

text \<open>
  \<open>int(val)\<close> on a \<open>float64\<close> discards the fraction (truncation toward zero). Go's \<open>int\<close> has
  64 bits here; when the truncated number does not fit, the language leaves the result to
  the implementation, and the amd64 conversion instruction yields the smallest \<open>int64\<close>.
\<close>

definition int_of_float64 :: "real \<Rightarrow> int" where
  "int_of_float64 val =
     (let t = (if val < 0 then - \<lfloor>- val\<rfloor> else \<lfloor>val\<rfloor>) in
      if - (2 ^ 63) \<le> t \<and> t < 2 ^ 63 then t else - (2 ^ 63))"

text \<open>\<open>fmt.Sprintf("%d", n)\<close>: the decimal digits, with a minus sign for a negative number.\<close>

definition digit_char :: "nat \<Rightarrow> char" where
  "digit_char d = ''0123456789'' ! d"

function digits10 :: "nat \<Rightarrow> string" where
  "digits10 n = (if n < 10 then [digit_char n] else digits10 (n div 10) @ [digit_char (n mod 10)])"
  by pat_completeness auto
termination
  by (relation "measure id") auto

declare digits10.simps [simp del]

definition Sprintf_d :: "int \<Rightarrow> string" where
  "Sprintf_d n = (if n < 0 then CHR ''-'' # digits10 (nat (- n)) else digits10 (nat n))"

text \<open>
  A type assertion \<open>val, ok := x.(T)\<close> on the result of a map lookup: the lookup of a
  missing key yields the \<open>nil\<close> interface, on which every assertion fails.
\<close>

fun assert_string :: "iface option \<Rightarrow> string option" where
  "assert_string (Some (GoString val)) = Some val"
| "assert_string _ = None"

fun assert_float64 :: "iface option \<Rightarrow> real option" where
  "assert_float64 (Some (GoFloat64 val)) = Some val"
| "assert_float64 _ = None"

fun assert_slice :: "iface option \<Rightarrow> iface list option" where
  "assert_slice (Some (GoSlice xs)) = Some xs"
| "assert_slice _ = None"

fun assert_map :: "iface option \<Rightarrow> (string \<times> iface) list option" where
  "assert_map (Some (GoMap m)) = Some m"
| "assert_map _ = None"

text \<open>
  \<open>ExtractProfileData\<close>. The decoder is the library's \<open>json.Unmarshal\<close>, taken as the
  parameter \<open>unmarshal\<close>: it returns an error or the decoded top-level object (the \<open>nil\<close>
  map, read as the empty one, for the body \<open>null\<close>). The Go function returns the pair
  \<open>(profile, err)\<close>; so does the model.
\<close>

definition ExtractProfileData ::
    "(string \<Rightarrow> go_error + (string \<times> iface) list) \<Rightarrow> string \<Rightarrow> ProfileData \<times> go_error option" where
  "ExtractProfileData unmarshal responseJSON =
     (let profile = zero_ProfileData in
      case unmarshal responseJSON of
        Inl err \<Rightarrow> (profile, Some err)
      | Inr data \<Rightarrow>
          (case assert_slice (map_of data ''persons'') of
             None \<Rightarrow> (profile, None)
           | Some [] \<Rightarrow> (profile, None)
           | Some (p0 # _) \<Rightarrow>
               (case assert_map (Some p0) of
                  None \<Rightarrow> (profile, None)
                | Some p \<Rightarrow>
                    (let profile = (case assert_string (map_of p ''displayName'') of
                                      Some val \<Rightarrow> profile\<lparr>User := val\<rparr>
                                    | None \<Rightarrow> profile);
                         profile = (case assert_string (map_of p ''linkedInUrl'') of
                                      Some val \<Rightarrow> profile\<lparr>LinkedInURL := val\<rparr>
                                    | None \<Rightarrow> profile);
                         profile = (case assert_string (map_of p ''connectionCount'') of
                                      Some val \<Rightarrow> profile\<lparr>ConnectionCount := val\<rparr>
                                    | None \<Rightarrow>
                                       (case assert_float64 (map_of p ''connectionCount'') of
                                          Some val \<Rightarrow>
                                            profile\<lparr>ConnectionCount := Sprintf_d (int_of_float64 val)\<rparr>
                                        | None \<Rightarrow> profile));
                         profile = (case assert_string (map_of p ''location'') of
                                      Some val \<Rightarrow> profile\<lparr>Location := val\<rparr>
                                    | None \<Rightarrow> profile)
                     in (profile, None)))))"

text \<open>
  The words of the specification, for comparison with the code: a field of \<open>persons[0]\<close>
  that is a string, and the empty string otherwise; the number truncated toward zero.
\<close>

definition string_field :: "(string \<times> iface) list \<Rightarrow> string \<Rightarrow> string" where
  "string_field p k = (case map_of p k of Some (GoString val) \<Rightarrow> val | _ \<Rightarrow> [])"

definition count_field :: "(string \<times> iface) list \<Rightarrow> string" where
  "count_field p =
     (case map_of p ''connectionCount'' of
        Some (GoString val) \<Rightarrow> val
      | Some (GoFloat64 val) \<Rightarrow> Sprintf_d (int_of_float64 val)
      | _ \<Rightarrow> [])"

definition truncate_toward_zero :: "real \<Rightarrow> int" where
  "truncate_toward_zero v = (if v < 0 then - \<lfloor>\<bar>v\<bar>\<rfloor> else \<lfloor>\<bar>v\<bar>\<rfloor>)"

text \<open>Decoders and bodies for the concrete runs below: a decoder given by a finite table.\<close>

definition decode_table ::
    "(string \<times> (string \<times> iface) list) list \<Rightarrow> string \<Rightarrow> go_error + (string \<times> iface) list" where
  "decode_table tbl body = (case map_of tbl body of Some data \<Rightarrow> Inr data | None \<Rightarrow> Inl ErrJSON)"

definition body_alice :: string where
  \<open>body_alice = ''{"persons":[{"displayName":"Alice","linkedInUrl":"lnk/a"}]}''\<close>

definition data_alice :: "(string \<times> iface) list" where
  "data_alice = [(''persons'', GoSlice [GoMap [(''displayName'', GoString ''Alice''),
                                               (''linkedInUrl'', GoString ''lnk/a'')]])]"

definition data_count :: "iface \<Rightarrow> (string \<times> iface) list" where
  "data_count c = [(''persons'', GoSlice [GoMap [(''displayName'', GoString ''Bob''), (''connectionCount'', c)]])]"

section \<open>The environment and the persistent state\<close>

text \<open>
  What the code reads from outside is an oracle of the environment, asked with the number
  of consultations made so far (\<open>clock\<close>): the remote endpoint (for a request with an
  email and a credential), the random generator, the request governor (the wait for a
  rate-limit slot and for the semaphore, both cancellable), and whether an operation on the
  store or on the file system succeeds. \<open>Unmarshal\<close> is the JSON decoder of the library.
\<close>

datatype transport = TransportError | Response int "string option"

datatype admission = Admitted | RateWaitCancelled | SemaphoreFailed

record env =
  endpoint :: "nat \<Rightarrow> string \<Rightarrow> string \<Rightarrow> transport"
  rnd :: "nat \<Rightarrow> nat"
  admit :: "nat \<Rightarrow> admission"
  db_ok :: "nat \<Rightarrow> bool"
  fs_ok :: "nat \<Rightarrow> bool"
  Unmarshal :: "string \<Rightarrow> go_error + (string \<times> iface) list"

text \<open>
  The tables of \<open>crawler.db\<close> (unnamed/part\_001, \<open>InitSchema\<close>), rows in the order of their
  \<open>id\<close>. The timestamps are left out: no operation modelled here reads them.
\<close>

datatype EmailStatus =
  EmailStatusPending | EmailStatusSuccessWithData | EmailStatusSuccessNoData
  | EmailStatusFailed | EmailStatusPermanentFailed

record email_row =
  e_email :: string
  e_status :: EmailStatus
  e_profile_user :: "string option"
  e_profile_url :: "string option"
  e_profile_location :: "string option"
  e_profile_connections :: "string option"
  e_retry_count :: int
  e_last_error :: "string option"

record token_row =
  t_token :: string
  t_is_valid :: bool
  t_failure_count :: int

text \<open>
  The observable actions, in the order they happen: a request sent to the endpoint (with
  what came back), a \<open>time.Sleep\<close> (in milliseconds), a call of \<open>RemoveTokenFromFile\<close>, and
  the end of an attempt of the retry loop (attempt number and final status code).
\<close>

datatype event =
    Request string string transport
  | Sleep nat
  | RemoveToken string
  | Attempt int int

record world =
  crawler :: "LinkedInCrawler option"
  shutdownRequested :: "32 word"
  emails_tbl :: "email_row list"
  tokens_tbl :: "token_row list"
  hit_txt :: string
  clock :: nat
  events :: "event list"

definition tick :: "world \<Rightarrow> world" where
  "tick w = w\<lparr>clock := Suc (clock w)\<rparr>"

definition emit :: "event \<Rightarrow> world \<Rightarrow> world" where
  "emit ev w = w\<lparr>events := events w @ [ev]\<rparr>"

definition sleep_ms :: "nat \<Rightarrow> world \<Rightarrow> world" where
  "sleep_ms ms w = emit (Sleep ms) w"

subsection \<open>The store (internal/database/email\_repo.go, token\_repo.go)\<close>

text \<open>
  Each operation is one \<open>UPDATE ... WHERE email = ?\<close> (or \<open>token = ?\<close>); when the statement
  fails the table is unchanged and the error is returned.
\<close>

definition UpdateEmailStatus :: "env \<Rightarrow> string \<Rightarrow> EmailStatus \<Rightarrow> world \<Rightarrow> go_error option \<times> world" where
  "UpdateEmailStatus env email st w =
     (if db_ok env (clock w) then
        (None, tick (w\<lparr>emails_tbl :=
           map (\<lambda>r. if e_email r = email then r\<lparr>e_status := st\<rparr> else r) (emails_tbl w)\<rparr>))
      else (Some ErrStore, tick w))"

definition UpdateEmailWithProfile :: "env \<Rightarrow> string \<Rightarrow> ProfileData \<Rightarrow> world \<Rightarrow> go_error option \<times> world" where
  "UpdateEmailWithProfile env email profile w =
     (if db_ok env (clock w) then
        (None, tick (w\<lparr>emails_tbl :=
           map (\<lambda>r. if e_email r = email
                     then r\<lparr>e_status := EmailStatusSuccessWithData,
                            e_profile_user := Some (User profile),
                            e_profile_url := Some (LinkedInURL profile),
                            e_profile_location := Some (Location profile),
                            e_profile_connections := Some (ConnectionCount profile)\<rparr>
                     else r) (emails_tbl w)\<rparr>))
      else (Some ErrStore, tick w))"

definition IncrementRetryCount :: "env \<Rightarrow> string \<Rightarrow> string \<Rightarrow> world \<Rightarrow> go_error option \<times> world" where
  "IncrementRetryCount env email lastError w =
     (if db_ok env (clock w) then
        (None, tick (w\<lparr>emails_tbl :=
           map (\<lambda>r. if e_email r = email
                     then r\<lparr>e_retry_count := e_retry_count r + 1, e_last_error := Some lastError\<rparr>
                     else r) (emails_tbl w)\<rparr>))
      else (Some ErrStore, tick w))"

definition InvalidateToken :: "env \<Rightarrow> string \<Rightarrow> world \<Rightarrow> go_error option \<times> world" where
  "InvalidateToken env token w =
     (if db_ok env (clock w) then
        (None, tick (w\<lparr>tokens_tbl :=
           map (\<lambda>r. if t_token r = token then r\<lparr>t_is_valid := False\<rparr> else r) (tokens_tbl w)\<rparr>))
      else (Some ErrStore, tick w))"

text \<open>
  \<open>storage.TokenStorage\<close> (unnamed/part\_004) holds a pointer to the store, \<open>nil\<close> until
  \<open>SetDBStorage\<close> is called; \<open>NewTokenStorage\<close> returns it unset, and \<open>NewQueryService\<close> and
  \<open>NewValidatorService\<close> keep what \<open>NewTokenStorage\<close> returns.
\<close>

record TokenStorage =
  dbStorage_set :: bool

definition NewTokenStorage :: TokenStorage where
  "NewTokenStorage = \<lparr>dbStorage_set = False\<rparr>"

definition RemoveTokenFromFile :: "env \<Rightarrow> TokenStorage \<Rightarrow> string \<Rightarrow> world \<Rightarrow> go_error option \<times> world" where
  "RemoveTokenFromFile env ts tokenToRemove w =
     (let w = emit (RemoveToken tokenToRemove) w in
      if \<not> dbStorage_set ts then (Some ErrNoDatabase, w)
      else InvalidateToken env tokenToRemove w)"

section \<open>Queries (internal/crawler/token\_manager.go, second part)\<close>

text \<open>\<open>strings.Contains\<close>: some suffix of the string starts with the substring.\<close>

fun Contains :: "string \<Rightarrow> string \<Rightarrow> bool" where
  "Contains [] substr = (substr = [])"
| "Contains (c # s) substr = (prefix substr (c # s) \<or> Contains s substr)"

record query_result =
  q_hasProfile :: bool
  q_body :: string
  q_statusCode :: int
  q_err :: "go_error option"

definition failed_query :: "int \<Rightarrow> go_error \<Rightarrow> query_result" where
  "failed_query code e = \<lparr>q_hasProfile = False, q_body = [], q_statusCode = code, q_err = Some e\<rparr>"

text \<open>
  \<open>doQueryProfile\<close>: one request. A transport error returns status 0; a status other than
  200 returns that status with an error; a body that cannot be read returns the status 200
  with an error; otherwise at most 1 MiB of the body is kept and \<open>hasProfile\<close> is the
  substring test. (\<open>http.NewRequestWithContext\<close> cannot fail on the constant method and URL.)
\<close>

definition doQueryProfile :: "env \<Rightarrow> string \<Rightarrow> string \<Rightarrow> world \<Rightarrow> query_result \<times> world" where
  "doQueryProfile env email token w =
     (let resp = endpoint env (clock w) email token;
          w = tick (emit (Request email token resp) w)
      in case resp of
           TransportError \<Rightarrow> (failed_query 0 ErrTransport, w)
         | Response statusCode content \<Rightarrow>
             if statusCode \<noteq> 200 then (failed_query statusCode (ErrStatus statusCode), w)
             else (case content of
                     None \<Rightarrow> (failed_query statusCode ErrReadBody, w)
                   | Some bytes \<Rightarrow>
                       (let body = take (2 ^ 20) bytes in
                        (\<lparr>q_hasProfile = Contains body ''displayName'', q_body = body,
                          q_statusCode = statusCode, q_err = None\<rparr>, w))))"

record QueryService =
  qs_tokenStorage :: TokenStorage

definition NewQueryService :: QueryService where
  "NewQueryService = \<lparr>qs_tokenStorage = NewTokenStorage\<rparr>"

text \<open>
  \<open>QueryProfileWithRetryLogic\<close>: the latch check, the governor (rate-limit slot, then the
  semaphore), a first request with a picked credential, and the credential switch on 429
  and on 401/424. The active-request counter is raised and lowered again by the deferred
  function, and read by no operation here: it is left out.
\<close>

definition QueryProfileWithRetryLogic ::
    "env \<Rightarrow> QueryService \<Rightarrow> string \<Rightarrow> LinkedInCrawler \<Rightarrow> world
       \<Rightarrow> query_result \<times> LinkedInCrawler \<times> world" where
  "QueryProfileWithRetryLogic env qs email lc w =
     (if AllTokensFailed lc then (failed_query 0 ErrAllTokensFailed, lc, w)
      else case admit env (clock w) of
          RateWaitCancelled \<Rightarrow> (failed_query 0 ErrContext, lc, tick w)
        | SemaphoreFailed \<Rightarrow> (failed_query 0 ErrSemaphore, lc, tick w)
        | Admitted \<Rightarrow>
           (let w = tick w;
                token = GetToken (rnd env (clock w)) lc;
                w = tick w;
                (r, w) = doQueryProfile env email token w
            in if q_statusCode r = 429 then
                 (let activeTokenCount = GetValidTokenCount lc in
                  if activeTokenCount > 1 then
                    (let lc = MarkTokenAsInvalid token lc;
                         newToken = GetToken (rnd env (clock w)) lc;
                         w = tick w
                     in if newToken \<noteq> [] \<and> newToken \<noteq> token then
                          (let (r, w) = doQueryProfile env email newToken w in (r, lc, w))
                        else (r, lc, w))
                  else
                    (let w = sleep_ms 1000 w;
                         (r, w) = doQueryProfile env email token w
                     in (r, lc, w)))
               else if q_statusCode r = 401 \<or> q_statusCode r = 424 then
                 (let lc = MarkTokenAsInvalid token lc;
                      (e, w) = RemoveTokenFromFile env (qs_tokenStorage qs) token w;
                      (allInvalid, lc) = CheckIfAllTokensInvalid lc
                  in if allInvalid then (failed_query (q_statusCode r) ErrAllTokensFailed, lc, w)
                     else
                       (let newToken = GetToken (rnd env (clock w)) lc;
                            w = tick w
                        in if newToken \<noteq> [] then
                             (let (r, w) = doQueryProfile env email newToken w in (r, lc, w))
                           else (r, lc, w)))
               else (r, lc, w)))"

subsection \<open>The validator\<close>

record ValidatorService =
  vs_tokenStorage :: TokenStorage

definition NewValidatorService :: ValidatorService where
  "NewValidatorService = \<lparr>vs_tokenStorage = NewTokenStorage\<rparr>"

text \<open>
  The loop of \<open>ValidateExistingTokens\<close> over the credentials: a probe, the test
  \<open>err == nil || statusCode == 429 || statusCode == 500\<close>, the removal on 401 and 424, and
  the pause of one second.
\<close>

fun ValidateExistingTokens_loop ::
    "env \<Rightarrow> ValidatorService \<Rightarrow> string \<Rightarrow> string list \<Rightarrow> string list \<Rightarrow> world
       \<Rightarrow> string list \<times> world" where
  "ValidateExistingTokens_loop env vs testEmail [] validTokens w = (validTokens, w)"
| "ValidateExistingTokens_loop env vs testEmail (token # rest) validTokens w =
     (let (r, w) = doQueryProfile env testEmail token w in
      if q_err r = None \<or> q_statusCode r = 429 \<or> q_statusCode r = 500 then
        ValidateExistingTokens_loop env vs testEmail rest (validTokens @ [token]) (sleep_ms 1000 w)
      else
        (let w = (if q_statusCode r = 401 \<or> q_statusCode r = 424
                  then snd (RemoveTokenFromFile env (vs_tokenStorage vs) token w) else w)
         in ValidateExistingTokens_loop env vs testEmail rest validTokens (sleep_ms 1000 w)))"

definition testEmail_of :: "string list \<Rightarrow> string" where
  "testEmail_of totalEmails = (case totalEmails of [] \<Rightarrow> ''test@example.com'' | e # _ \<Rightarrow> e)"

text \<open>
  \<open>crawler.New\<close> creates the directory of the output file and opens the file: it fails when
  the file system does.
\<close>

definition ValidateExistingTokens ::
    "env \<Rightarrow> ValidatorService \<Rightarrow> string list \<Rightarrow> string list \<Rightarrow> world
       \<Rightarrow> (go_error + string list) \<times> world" where
  "ValidateExistingTokens env vs tokens totalEmails w =
     (if length tokens = 0 then (Inl ErrNoTokens, w)
      else if \<not> fs_ok env (clock w) then (Inl ErrFile, tick w)
      else (let (validTokens, w) =
                  ValidateExistingTokens_loop env vs (testEmail_of totalEmails) tokens [] (tick w)
            in (Inr validTokens, w)))"

fun ValidateTokensBatch_loop ::
    "env \<Rightarrow> string \<Rightarrow> string list \<Rightarrow> string list \<Rightarrow> world \<Rightarrow> string list \<times> world" where
  "ValidateTokensBatch_loop env testEmail [] validTokens w = (validTokens, w)"
| "ValidateTokensBatch_loop env testEmail (token # rest) validTokens w =
     (let (r, w) = doQueryProfile env testEmail token w in
      if q_err r = None \<or> q_statusCode r = 429 \<or> q_statusCode r = 500 then
        ValidateTokensBatch_loop env testEmail rest (validTokens @ [token]) (sleep_ms 1000 w)
      else ValidateTokensBatch_loop env testEmail rest validTokens (sleep_ms 1000 w))"

definition ValidateTokensBatch ::
    "env \<Rightarrow> ValidatorService \<Rightarrow> string list \<Rightarrow> string list \<Rightarrow> world
       \<Rightarrow> (go_error + string list) \<times> world" where
  "ValidateTokensBatch env vs tokens totalEmails w =
     (if length tokens = 0 then (Inl ErrNoTokens, w)
      else if \<not> fs_ok env (clock w) then (Inl ErrFile, tick w)
      else (let (validTokens, w) =
                  ValidateTokensBatch_loop env (testEmail_of totalEmails) tokens [] (tick w)
            in (Inr validTokens, w)))"

subsection \<open>Reading the record of actions\<close>

text \<open>
  The actions added between two states, the probes among them (credential and what came
  back) and the credentials handed to \<open>RemoveTokenFromFile\<close>.
\<close>

definition new_events :: "world \<Rightarrow> world \<Rightarrow> event list" where
  "new_events w w' = drop (length (events w)) (events w')"

fun probes_of :: "event list \<Rightarrow> (string \<times> transport) list" where
  "probes_of [] = []"
| "probes_of (Request email token resp # evs) = (token, resp) # probes_of evs"
| "probes_of (_ # evs) = probes_of evs"

fun removals_of :: "event list \<Rightarrow> string list" where
  "removals_of [] = []"
| "removals_of (RemoveToken token # evs) = token # removals_of evs"
| "removals_of (_ # evs) = removals_of evs"

text \<open>
  The classification of a probe, in words: accepted when the endpoint answered 200 with a
  readable body, or 429, or 500; hard-rejected when it answered 401 or 424.
\<close>

fun probe_accepted :: "transport \<Rightarrow> bool" where
  "probe_accepted TransportError = False"
| "probe_accepted (Response code content) = ((code = 200 \<and> content \<noteq> None) \<or> code = 429 \<or> code = 500)"

fun probe_hard_rejected :: "transport \<Rightarrow> bool" where
  "probe_hard_rejected TransportError = False"
| "probe_hard_rejected (Response code content) = (code = 401 \<or> code = 424)"

text \<open>Environments and states for the concrete runs below.\<close>

definition mk_env :: "(nat \<Rightarrow> string \<Rightarrow> string \<Rightarrow> transport) \<Rightarrow> env" where
  "mk_env ep =
     \<lparr>endpoint = ep, rnd = (\<lambda>n. 0), admit = (\<lambda>n. Admitted), db_ok = (\<lambda>n. True),
      fs_ok = (\<lambda>n. True), Unmarshal = decode_table [(body_alice, data_alice), (''{}'', [])]\<rparr>"

definition mk_row :: "string \<Rightarrow> email_row" where
  "mk_row a =
     \<lparr>e_email = a, e_status = EmailStatusPending, e_profile_user = None, e_profile_url = None,
      e_profile_location = None, e_profile_connections = None, e_retry_count = 0,
      e_last_error = None\<rparr>"

definition mk_token_row :: "string \<Rightarrow> token_row" where
  "mk_token_row t = \<lparr>t_token = t, t_is_valid = True, t_failure_count = 0\<rparr>"

definition mk_world :: "LinkedInCrawler option \<Rightarrow> string list \<Rightarrow> string list \<Rightarrow> world" where
  "mk_world lc addrs toks =
     \<lparr>crawler = lc, shutdownRequested = 0, emails_tbl = map mk_row addrs,
      tokens_tbl = map mk_token_row toks, hit_txt = [], clock = 0, events = []\<rparr>"

text \<open>An endpoint that answers by the credential alone.\<close>

definition by_token :: "(string \<times> transport) list \<Rightarrow> nat \<Rightarrow> string \<Rightarrow> string \<Rightarrow> transport" where
  "by_token tbl n email token = (case map_of tbl token of Some resp \<Rightarrow> resp | None \<Rightarrow> TransportError)"

definition probe_replies :: "(string \<times> transport) list" where
  "probe_replies =
     [(''T200'', Response 200 (Some ''{}'')), (''T429'', Response 429 None),
      (''T500'', Response 500 None), (''T401'', Response 401 None),
      (''T424'', Response 424 None), (''T403'', Response 403 None)]"

definition probe_tokens :: "string list" where
  "probe_tokens = [''T200'', ''T429'', ''T500'', ''T401'', ''T424'', ''T403'', ''Tdown'']"

text \<open>The status code a reply carries (0 for a transport error) and what one request returns for it.\<close>

fun status_of :: "transport \<Rightarrow> int" where
  "status_of TransportError = 0"
| "status_of (Response code content) = code"

definition env_429 :: env where
  "env_429 = mk_env (by_token [(''T1'', Response 429 None), (''T2'', Response 200 (Some ''{}''))])"

section \<open>The retry state machine (internal/orchestrator/batch\_processor.go)\<close>

text \<open>
  \<open>WriteProfileToFile\<close> appends one line to the output file (write, flush, sync); when
  the file system fails the error is returned (the caller drops it).
\<close>

definition profile_line :: "string \<Rightarrow> ProfileData \<Rightarrow> string" where
  "profile_line email profile =
     email @ ''|'' @ User profile @ ''|'' @ LinkedInURL profile @ ''|'' @ Location profile
       @ ''|'' @ ConnectionCount profile @ [CHR 0x0A]"

definition WriteProfileToFile :: "env \<Rightarrow> string \<Rightarrow> ProfileData \<Rightarrow> world \<Rightarrow> go_error option \<times> world" where
  "WriteProfileToFile env email profile w =
     (let line = profile_line email profile in
      if fs_ok env (clock w) then (None, tick (w\<lparr>hit_txt := hit_txt w @ line\<rparr>))
      else (Some ErrFile, tick w))"

definition add_Success :: "world \<Rightarrow> world" where
  "add_Success w =
     (case crawler w of
        None \<Rightarrow> w
      | Some lc \<Rightarrow> w\<lparr>crawler := Some (lc\<lparr>Stats_Success := Stats_Success lc + 1\<rparr>)\<rparr>)"

definition add_Failed :: "world \<Rightarrow> world" where
  "add_Failed w =
     (case crawler w of
        None \<Rightarrow> w
      | Some lc \<Rightarrow> w\<lparr>crawler := Some (lc\<lparr>Stats_Failed := Stats_Failed lc + 1\<rparr>)\<rparr>)"

text \<open>The branch \<open>statusCode == 200\<close> of the loop body, up to its \<open>return true\<close>.\<close>

definition on_status_200 :: "env \<Rightarrow> string \<Rightarrow> query_result \<Rightarrow> world \<Rightarrow> world" where
  "on_status_200 env email r w =
     (if q_hasProfile r then
        (let (profile, parseErr) = ExtractProfileData (Unmarshal env) (q_body r) in
         if parseErr = None \<and> User profile \<noteq> [] \<and> User profile \<noteq> ''null''
              \<and> User profile \<noteq> ''{}'' then
           (let (e1, w) = UpdateEmailWithProfile env email profile w;
                (e2, w) = WriteProfileToFile env email profile w
            in add_Success w)
         else
           (let (e1, w) = UpdateEmailStatus env email EmailStatusSuccessNoData w
            in add_Success w))
      else
        (let (e1, w) = UpdateEmailStatus env email EmailStatusSuccessNoData w
         in add_Success w))"

text \<open>
  The loop \<open>for attempt := 1; attempt <= maxRetries; attempt++\<close>. The result is \<open>Some b\<close>
  when the body returned \<open>b\<close>, and \<open>None\<close> when the loop ran to its end. The crawler
  instance is the one read before the loop (\<open>nil\<close> makes every pass empty); the shutdown
  flag is read at the start of every pass. The jittered pause is \<open>200 + r.Intn(401)\<close> ms.
\<close>

function retry_loop ::
    "env \<Rightarrow> QueryService \<Rightarrow> string \<Rightarrow> int \<Rightarrow> int \<Rightarrow> world \<Rightarrow> bool option \<times> world" where
  "retry_loop env qs email maxRetries attempt w =
     (if attempt > maxRetries then (None, w)
      else if shutdownRequested w = 1 then (Some False, w)
      else case crawler w of
          None \<Rightarrow> retry_loop env qs email maxRetries (attempt + 1) w
        | Some lc \<Rightarrow>
            if AllTokensFailed lc then (Some False, w)
            else
              (case QueryProfileWithRetryLogic env qs email lc w of
                 (r, lc', w1) \<Rightarrow>
                   (let w2 = emit (Attempt attempt (q_statusCode r)) (w1\<lparr>crawler := Some lc'\<rparr>) in
                    if q_statusCode r = 200 then (Some True, on_status_200 env email r w2)
                    else if attempt < maxRetries then
                      retry_loop env qs email maxRetries (attempt + 1)
                        (sleep_ms (200 + rnd env (clock w2) mod 401) (tick w2))
                    else retry_loop env qs email maxRetries (attempt + 1) w2)))"
  by pat_completeness auto
termination
  by (relation "measure (\<lambda>(env, qs, email, maxRetries, attempt, w). nat (maxRetries + 1 - attempt))") auto

declare retry_loop.simps [simp del]

definition retryEmailWithNewLogic ::
    "env \<Rightarrow> QueryService \<Rightarrow> string \<Rightarrow> int \<Rightarrow> world \<Rightarrow> bool \<times> world" where
  "retryEmailWithNewLogic env qs email maxRetries w =
     (case retry_loop env qs email maxRetries 1 w of
        (Some b, w') \<Rightarrow> (b, w')
      | (None, w') \<Rightarrow>
          (let (e1, w') = UpdateEmailStatus env email EmailStatusFailed w';
               (e2, w') = IncrementRetryCount env email ''Failed after max retries'' w'
           in (False, add_Failed w')))"

text \<open>The final status codes of the attempts recorded in a list of actions.\<close>

fun attempts_of :: "event list \<Rightarrow> int list" where
  "attempts_of [] = []"
| "attempts_of (Attempt n code # evs) = code # attempts_of evs"
| "attempts_of (_ # evs) = attempts_of evs"

text \<open>What one request returns for a reply of the endpoint (the case analysis of \<open>doQueryProfile\<close>).\<close>

fun reply_result :: "transport \<Rightarrow> query_result" where
  "reply_result TransportError = failed_query 0 ErrTransport"
| "reply_result (Response code None) =
     (if code \<noteq> 200 then failed_query code (ErrStatus code) else failed_query code ErrReadBody)"
| "reply_result (Response code (Some bytes)) =
     (if code \<noteq> 200 then failed_query code (ErrStatus code)
      else \<lparr>q_hasProfile = Contains (take (2 ^ 20) bytes) ''displayName'',
            q_body = take (2 ^ 20) bytes, q_statusCode = code, q_err = None\<rparr>)"

text \<open>The rows after \<open>UpdateEmailWithProfile\<close>, after \<open>UpdateEmailStatus\<close>, and after the two writes of an exhausted run.\<close>

definition rows_with_profile :: "string \<Rightarrow> ProfileData \<Rightarrow> email_row list \<Rightarrow> email_row list" where
  "rows_with_profile email profile rows =
     map (\<lambda>r. if e_email r = email
               then r\<lparr>e_status := EmailStatusSuccessWithData,
                      e_profile_user := Some (User profile),
                      e_profile_url := Some (LinkedInURL profile),
                      e_profile_location := Some (Location profile),
                      e_profile_connections := Some (ConnectionCount profile)\<rparr>
               else r) rows"

definition rows_with_status :: "string \<Rightarrow> EmailStatus \<Rightarrow> email_row list \<Rightarrow> email_row list" where
  "rows_with_status email st rows = map (\<lambda>r. if e_email r = email then r\<lparr>e_status := st\<rparr> else r) rows"

definition rows_failed_once :: "string \<Rightarrow> email_row list \<Rightarrow> email_row list" where
  "rows_failed_once email rows =
     map (\<lambda>r. if e_email r = email
               then r\<lparr>e_status := EmailStatusFailed, e_retry_count := e_retry_count r + 1,
                      e_last_error := Some ''Failed after max retries''\<rparr>
               else r) rows"

text \<open>What a call of the query leaves alone, and what a status 200 says about its last request.\<close>

definition query_post :: "string \<Rightarrow> world \<Rightarrow> query_result \<Rightarrow> world \<Rightarrow> bool" where
  "query_post email w r w1 =
     (emails_tbl w1 = emails_tbl w \<and> hit_txt w1 = hit_txt w
      \<and> shutdownRequested w1 = shutdownRequested w \<and> crawler w1 = crawler w
      \<and> (\<exists>evs. events w1 = events w @ evs \<and> attempts_of evs = []
            \<and> (q_statusCode r = 200 \<longrightarrow>
                 (\<exists>token content. probes_of evs \<noteq> []
                     \<and> last (probes_of evs) = (token, Response 200 content)
                     \<and> r = reply_result (Response 200 content)))))"

text \<open>
  What a run of the loop from attempt \<open>a\<close> leaves behind: at most \<open>m + 1 - a\<close> attempts
  recorded; a stop by \<open>return false\<close> records fewer, none of them 200, and leaves the email
  table and the output file alone, as does a loop that runs to its end; a stop by
  \<open>return true\<close> follows an attempt that ended with 200 and applies \<open>on_status_200\<close> to the
  result of the last request.
\<close>

definition loop_post :: "env \<Rightarrow> string \<Rightarrow> int \<Rightarrow> int \<Rightarrow> world \<Rightarrow> bool option \<Rightarrow> world \<Rightarrow> bool" where
  "loop_post env email m a w res w' =
     (\<exists>evs. events w' = events w @ evs
        \<and> length (attempts_of evs) \<le> nat (m + 1 - a)
        \<and> (res = Some False \<longrightarrow>
              length (attempts_of evs) < nat (m + 1 - a) \<and> 200 \<notin> set (attempts_of evs)
              \<and> emails_tbl w' = emails_tbl w \<and> hit_txt w' = hit_txt w)
        \<and> (res = None \<longrightarrow>
              200 \<notin> set (attempts_of evs)
              \<and> emails_tbl w' = emails_tbl w \<and> hit_txt w' = hit_txt w)
        \<and> (res = Some True \<longrightarrow>
              200 \<in> set (attempts_of evs)
              \<and> (\<exists>w2 token content.
                    w' = on_status_200 env email (reply_result (Response 200 content)) w2
                  \<and> emails_tbl w2 = emails_tbl w \<and> hit_txt w2 = hit_txt w
                  \<and> probes_of evs \<noteq> []
                  \<and> last (probes_of evs) = (token, Response 200 content))))"

text \<open>More environments and states for the concrete runs: an endpoint that answers by the email.\<close>

definition by_email :: "(string \<times> transport) list \<Rightarrow> nat \<Rightarrow> string \<Rightarrow> string \<Rightarrow> transport" where
  "by_email tbl n email token = (case map_of tbl email of Some resp \<Rightarrow> resp | None \<Rightarrow> TransportError)"

definition env_500 :: env where
  "env_500 = mk_env (by_token [(''T1'', Response 500 None)])"

definition world_e :: world where
  "world_e = mk_world (Some (mk_crawler [''T1''] [])) [''e@x.com''] [''T1'']"

definition env_200 :: env where
  "env_200 = mk_env (by_email [(''a@x.com'', Response 200 (Some body_alice)),
                                (''b@x.com'', Response 200 (Some ''{}''))])"

definition world_ab :: world where
  "world_ab = mk_world (Some (mk_crawler [''T1''] [])) [''a@x.com'', ''b@x.com''] [''T1'']"

section \<open>Import of the email list (unnamed/part\_004, internal/database/email\_repo.go)\<close>

text \<open>
  \<open>strings.Split(s, "\n")\<close>: the pieces between the separators, one more than there are
  separators.
\<close>

fun Split :: "string \<Rightarrow> char \<Rightarrow> string list" where
  "Split [] sep = [[]]"
| "Split (c # s) sep =
     (if c = sep then [] # Split s sep
      else (case Split s sep of [] \<Rightarrow> [[c]] | piece # pieces \<Rightarrow> (c # piece) # pieces))"

text \<open>
  \<open>strings.TrimSpace\<close> removes leading and trailing white space as Unicode defines it. On
  the bytes of a UTF-8 string these are the six ASCII characters, U+0085 and U+00A0 (two
  bytes), and U+1680, U+2000 to U+200A, U+2028, U+2029, U+202F, U+205F and U+3000
  (three bytes).
\<close>

definition space1 :: "char \<Rightarrow> bool" where
  "space1 c = (c = CHR 0x09 \<or> c = CHR 0x0A \<or> c = CHR 0x0B \<or> c = CHR 0x0C \<or> c = CHR 0x0D \<or> c = CHR 0x20)"

definition space2 :: "char \<Rightarrow> char \<Rightarrow> bool" where
  "space2 a b = (a = CHR 0xC2 \<and> (b = CHR 0x85 \<or> b = CHR 0xA0))"

definition space3 :: "char \<Rightarrow> char \<Rightarrow> char \<Rightarrow> bool" where
  "space3 a b c =
     ((a = CHR 0xE1 \<and> b = CHR 0x9A \<and> c = CHR 0x80)
      \<or> (a = CHR 0xE2 \<and> b = CHR 0x80
           \<and> (((0x80 :: nat) \<le> of_char c \<and> of_char c \<le> (0x8A :: nat)) \<or> c = CHR 0xA8 \<or> c = CHR 0xA9 \<or> c = CHR 0xAF))
      \<or> (a = CHR 0xE2 \<and> b = CHR 0x81 \<and> c = CHR 0x9F)
      \<or> (a = CHR 0xE3 \<and> b = CHR 0x80 \<and> c = CHR 0x80))"

fun trim_front ::
    "(char \<Rightarrow> char \<Rightarrow> bool) \<Rightarrow> (char \<Rightarrow> char \<Rightarrow> char \<Rightarrow> bool) \<Rightarrow> string \<Rightarrow> string" where
  "trim_front s2 s3 (a # b # c # s) =
     (if space1 a then trim_front s2 s3 (b # c # s)
      else if s2 a b then trim_front s2 s3 (c # s)
      else if s3 a b c then trim_front s2 s3 s
      else a # b # c # s)"
| "trim_front s2 s3 [a, b] =
     (if space1 a then trim_front s2 s3 [b] else if s2 a b then [] else [a, b])"
| "trim_front s2 s3 [a] = (if space1 a then [] else [a])"
| "trim_front s2 s3 [] = []"

definition TrimSpace :: "string \<Rightarrow> string" where
  "TrimSpace s =
     rev (trim_front (\<lambda>y x. space2 x y) (\<lambda>z y x. space3 x y z) (rev (trim_front space2 space3 s)))"

text \<open>\<open>strings.SplitN(line, ",", 2)[1]\<close> for a line that contains the separator.\<close>

definition after_first :: "char \<Rightarrow> string \<Rightarrow> string" where
  "after_first sep line = drop 1 (dropWhile (\<lambda>c. c \<noteq> sep) line)"

definition HasPrefix :: "string \<Rightarrow> string \<Rightarrow> bool" where
  "HasPrefix s p = prefix p s"

text \<open>
  \<open>ImportEmails\<close>: one transaction of \<open>INSERT OR IGNORE\<close> statements; the column \<open>email\<close> is
  unique, so an address already in the table is ignored. A failure anywhere rolls the
  transaction back: the table is as before and the error is returned.
\<close>

definition insert_or_ignore :: "string \<Rightarrow> email_row list \<Rightarrow> email_row list" where
  "insert_or_ignore a rows = (if a \<in> set (map e_email rows) then rows else rows @ [mk_row a])"

fun ImportEmails_loop :: "string list \<Rightarrow> email_row list \<Rightarrow> email_row list" where
  "ImportEmails_loop [] rows = rows"
| "ImportEmails_loop (email # emails) rows =
     (let email = TrimSpace email in
      if email \<noteq> [] \<and> \<not> HasPrefix email ''#''
      then ImportEmails_loop emails (insert_or_ignore email rows)
      else ImportEmails_loop emails rows)"

definition ImportEmails :: "env \<Rightarrow> string list \<Rightarrow> world \<Rightarrow> go_error option \<times> world" where
  "ImportEmails env emails w =
     (if length emails = 0 then (None, w)
      else if db_ok env (clock w)
      then (None, tick (w\<lparr>emails_tbl := ImportEmails_loop emails (emails_tbl w)\<rparr>))
      else (Some ErrStore, tick w))"

text \<open>
  \<open>ImportEmailsFromFile\<close>; \<open>content\<close> is what \<open>ioutil.ReadFile\<close> returned (\<open>None\<close> when the
  file cannot be read).
\<close>

fun ImportEmailsFromFile_loop :: "string list \<Rightarrow> string list \<Rightarrow> string list" where
  "ImportEmailsFromFile_loop [] emails = emails"
| "ImportEmailsFromFile_loop (line # lines) emails =
     (let line = TrimSpace line;
          email = (if Contains line '','' then TrimSpace (after_first CHR '','' line) else line)
      in if email \<noteq> [] \<and> \<not> HasPrefix email ''#''
         then ImportEmailsFromFile_loop lines (emails @ [email])
         else ImportEmailsFromFile_loop lines emails)"

definition ImportEmailsFromFile :: "env \<Rightarrow> string option \<Rightarrow> world \<Rightarrow> go_error option \<times> world" where
  "ImportEmailsFromFile env content w =
     (case content of
        None \<Rightarrow> (Some ErrReadFile, w)
      | Some text \<Rightarrow> ImportEmails env (ImportEmailsFromFile_loop (Split text (CHR 0x0A)) []) w)"

text \<open>\<open>GetPendingEmails\<close>: the pending addresses in the order of their \<open>id\<close>, at most \<open>limit\<close> when it is positive.\<close>

definition GetPendingEmails :: "env \<Rightarrow> int \<Rightarrow> world \<Rightarrow> (go_error + string list) \<times> world" where
  "GetPendingEmails env limit w =
     (if db_ok env (clock w) then
        (let emails = map e_email (filter (\<lambda>r. e_status r = EmailStatusPending) (emails_tbl w)) in
         (Inr (if limit > 0 then take (nat limit) emails else emails), tick w))
      else (Inl ErrStore, tick w))"

text \<open>\<open>GetRemainingEmails\<close>: pending and failed addresses, by \<open>retry_count\<close> and then by \<open>id\<close>.\<close>

definition GetRemainingEmails :: "env \<Rightarrow> world \<Rightarrow> (go_error + string list) \<times> world" where
  "GetRemainingEmails env w =
     (if db_ok env (clock w) then
        (Inr (map e_email (sort_key e_retry_count
                (filter (\<lambda>r. e_status r = EmailStatusPending \<or> e_status r = EmailStatusFailed)
                   (emails_tbl w)))), tick w)
      else (Inl ErrStore, tick w))"

text \<open>The words of the claim about the import: the entry of a line, and the entries a file gives.\<close>

definition spec_entry :: "string \<Rightarrow> string" where
  "spec_entry line = (if CHR '','' \<in> set line then TrimSpace (after_first CHR '','' line) else TrimSpace line)"

definition spec_pending :: "string \<Rightarrow> string list" where
  "spec_pending text =
     rev (remdups (rev (filter (\<lambda>e. e \<noteq> [])
        (map spec_entry (filter (\<lambda>line. \<not> HasPrefix (TrimSpace line) ''#'') (Split text (CHR 0x0A)))))))"

definition comment_with_comma :: string where
  "comment_with_comma = ''# list, a@x.com'' @ [CHR 0x0A] @ ''b@x.com'' @ [CHR 0x0A]"

section \<open>Phase 2, the retry sweep (unnamed/part\_003)\<close>

text \<open>
  \<open>RetryFailedEmails\<close> drives operations of other components: reading the remaining
  emails and the stored credentials, minting a batch of credentials from the accounts
  left, validating, creating the crawler, the pass of the worker pool over the list, and
  closing the crawler. They are taken as parameters acting on a state \<open>'s\<close>; the pauses
  (\<open>time.Sleep\<close>) and the printed lines change nothing here and are left out.
\<close>

record 's sweep_ops =
  LoadEmailsFromFile :: "'s \<Rightarrow> (go_error + string list) \<times> 's"
  LoadTokensFromFile :: "'s \<Rightarrow> (go_error + string list) \<times> 's"
  accounts_left :: "'s \<Rightarrow> bool"
  getTokensBatch :: "'s \<Rightarrow> (go_error + string list) \<times> 's"
  validateExistingTokens :: "string list \<Rightarrow> 's \<Rightarrow> (go_error + string list) \<times> 's"
  initializeCrawler :: "string list \<Rightarrow> 's \<Rightarrow> go_error option \<times> 's"
  crawlWithCurrentTokens :: "string list \<Rightarrow> 's \<Rightarrow> 's"
  close_crawler :: "'s \<Rightarrow> 's"

text \<open>
  The credentials for one iteration: the stored ones, or a freshly minted batch when there
  are none and accounts remain. \<open>Inl (Some e)\<close> is \<open>return err\<close>, \<open>Inl None\<close> is \<open>return nil\<close>.
\<close>

definition tokens_for_retry :: "'s sweep_ops \<Rightarrow> 's \<Rightarrow> (go_error option + string list) \<times> 's" where
  "tokens_for_retry ops s =
     (let (loaded, s) = LoadTokensFromFile ops s;
          existingTokens = (case loaded of Inl e \<Rightarrow> [] | Inr tokens \<Rightarrow> tokens)
      in if isl loaded \<or> length existingTokens = 0 then
           (if accounts_left ops s then
              (case getTokensBatch ops s of
                 (Inl e, s) \<Rightarrow> (Inl (Some e), s)
               | (Inr tokens, s) \<Rightarrow> (Inr tokens, s))
            else (Inl None, s))
         else (Inr existingTokens, s))"

text \<open>
  The loop \<open>for i := 1; i <= maxRetry; i++\<close>; \<open>passes\<close> collects, for every pass of the
  worker pool, the number of remaining emails before and after it.
\<close>

function RetryFailedEmails_loop ::
    "'s sweep_ops \<Rightarrow> int \<Rightarrow> int \<Rightarrow> 's \<Rightarrow> (nat \<times> nat) list
       \<Rightarrow> go_error option \<times> 's \<times> (nat \<times> nat) list" where
  "RetryFailedEmails_loop ops maxRetry i s passes =
     (if i > maxRetry then (None, s, passes)
      else
        (case LoadEmailsFromFile ops s of
           (Inl e, s) \<Rightarrow> (None, s, passes)
         | (Inr retryEmails, s) \<Rightarrow>
             if length retryEmails = 0 then (None, s, passes)
             else
               (case tokens_for_retry ops s of
                  (Inl stop, s) \<Rightarrow> (stop, s, passes)
                | (Inr existingTokens, s) \<Rightarrow>
                    (case validateExistingTokens ops existingTokens s of
                       (Inl e, s) \<Rightarrow> (Some e, s, passes)
                     | (Inr validTokens, s) \<Rightarrow>
                         if length validTokens = 0 then (None, s, passes)
                         else
                           (case initializeCrawler ops validTokens s of
                              (Some e, s) \<Rightarrow> (Some e, s, passes)
                            | (None, s) \<Rightarrow>
                                (let emailsBefore = length retryEmails;
                                     s = close_crawler ops (crawlWithCurrentTokens ops retryEmails s);
                                     (after, s) = LoadEmailsFromFile ops s;
                                     emailsAfter = length (case after of Inl e \<Rightarrow> [] | Inr l \<Rightarrow> l);
                                     passes = passes @ [(emailsBefore, emailsAfter)]
                                 in if emailsAfter = 0 then (None, s, passes)
                                    else if emailsAfter \<ge> emailsBefore then (None, s, passes)
                                    else RetryFailedEmails_loop ops maxRetry (i + 1) s passes))))))"
  by pat_completeness auto
termination
  by (relation "measure (\<lambda>(ops, maxRetry, i, s, passes). nat (maxRetry + 1 - i))") auto

declare RetryFailedEmails_loop.simps [simp del]

definition RetryFailedEmails :: "'s sweep_ops \<Rightarrow> 's \<Rightarrow> go_error option \<times> 's \<times> (nat \<times> nat) list" where
  "RetryFailedEmails ops s = RetryFailedEmails_loop ops 7 1 s []"

text \<open>Every pass but the last made progress: its count after is positive and below its count before.\<close>

fun progressing :: "(nat \<times> nat) list \<Rightarrow> bool" where
  "progressing [] = True"
| "progressing [p] = True"
| "progressing (p # q # ps) = (0 < snd p \<and> snd p < fst p \<and> progressing (q # ps))"

text \<open>
  A sweep for the concrete runs: the state is the number of remaining emails, and a pass
  leaves \<open>step n\<close> of them.
\<close>

definition toy_sweep :: "(nat \<Rightarrow> nat) \<Rightarrow> nat sweep_ops" where
  "toy_sweep step =
     \<lparr>LoadEmailsFromFile = (\<lambda>n. (Inr (replicate n ''e@x.com''), n)),
      LoadTokensFromFile = (\<lambda>n. (Inr [''T1''], n)),
      accounts_left = (\<lambda>n. False),
      getTokensBatch = (\<lambda>n. (Inl ErrNoTokens, n)),
      validateExistingTokens = (\<lambda>tokens n. (Inr tokens, n)),
      initializeCrawler = (\<lambda>tokens n. (None, n)),
      crawlWithCurrentTokens = (\<lambda>emails n. step n),
      close_crawler = (\<lambda>n. n)\<rparr>"

section \<open>The shutdown hook (internal/utils/signal.go, internal/orchestrator/state\_manager.go)\<close>

text \<open>
  The part of the \<open>AutoCrawler\<close> the hook reads: the emails loaded at start and the four
  in-memory tracking maps (\<open>map[string]struct{}\<close>, kept as the list of their keys;
  for \<open>failedEmails\<close> in the order in which the runtime happens to iterate the map). The
  files are a map from paths to contents.
\<close>

record AutoCrawler =
  ac_totalEmails :: "string list"
  ac_successEmailsWithData :: "string list"
  ac_successEmailsWithoutData :: "string list"
  ac_failedEmails :: "string list"
  ac_permanentFailed :: "string list"
  ac_shutdownRequested :: "32 word"

type_synonym file_system = "string \<Rightarrow> string option"

definition EmailsFilePath :: string where
  "EmailsFilePath = ''emails.txt''"

text \<open>\<open>EmailStorage.WriteEmailsToFile\<close> (unnamed/part\_004): its body is \<open>return nil\<close>.\<close>

definition WriteEmailsToFile :: "string \<Rightarrow> string list \<Rightarrow> file_system \<Rightarrow> go_error option \<times> file_system" where
  "WriteEmailsToFile filePath emails fs = (None, fs)"

text \<open>The second loop of the hook: a failed email joins the list unless it is there already.\<close>

fun add_failed :: "string list \<Rightarrow> string list \<Rightarrow> string list" where
  "add_failed [] remainingEmails = remainingEmails"
| "add_failed (email # failed) remainingEmails =
     (if email \<in> set remainingEmails then add_failed failed remainingEmails
      else add_failed failed (remainingEmails @ [email]))"

text \<open>
  \<open>SaveStateOnShutdown\<close>; the result is the list it computed (which the Go function only
  prints the length of) and the files afterwards.
\<close>

definition SaveStateOnShutdown :: "AutoCrawler \<Rightarrow> file_system \<Rightarrow> string list \<times> file_system" where
  "SaveStateOnShutdown ac fs =
     (let remainingEmails =
            filter (\<lambda>email. email \<notin> set (ac_successEmailsWithData ac)
                           \<and> email \<notin> set (ac_successEmailsWithoutData ac)
                           \<and> email \<notin> set (ac_permanentFailed ac)) (ac_totalEmails ac);
          remainingEmails = add_failed (ac_failedEmails ac) remainingEmails
      in if length remainingEmails = 0 then
           (let (err, fs) = WriteEmailsToFile EmailsFilePath [] fs in (remainingEmails, fs))
         else
           (let (err, fs) = WriteEmailsToFile EmailsFilePath remainingEmails fs in (remainingEmails, fs)))"

text \<open>
  The goroutine of \<open>SetupSignalHandling\<close> once a signal has arrived: it stores 1 in the
  flag, calls the hook, sleeps and exits with code 0.
\<close>

datatype process_event = SleepFor nat | Exit int

definition on_signal ::
    "nat \<Rightarrow> AutoCrawler \<Rightarrow> file_system \<Rightarrow> AutoCrawler \<times> file_system \<times> process_event list" where
  "on_signal sleepDuration ac fs =
     (let ac = ac\<lparr>ac_shutdownRequested := 1\<rparr>;
          (remainingEmails, fs) = SaveStateOnShutdown ac fs
      in (ac, fs, [SleepFor sleepDuration, Exit 0]))"

text \<open>In-memory states and files for the concrete runs.\<close>

definition mem_state :: "string list \<Rightarrow> string list \<Rightarrow> AutoCrawler" where
  "mem_state loaded finished =
     \<lparr>ac_totalEmails = loaded, ac_successEmailsWithData = finished, ac_successEmailsWithoutData = [],
      ac_failedEmails = [], ac_permanentFailed = [], ac_shutdownRequested = 0\<rparr>"

definition files_ab :: file_system where
  "files_ab = (\<lambda>path. if path = ''emails.txt''
                       then Some (''a@x.com'' @ [CHR 0x0A] @ ''b@x.com'' @ [CHR 0x0A]) else None)"

section \<open>Properties of the credential pool\<close>

lemma GetToken_valid_nth:
  assumes "filter (\<lambda>token. \<not> InvalidTokens lc token) (Tokens lc) \<noteq> []"
  shows "GetToken r lc \<in> set (filter (\<lambda>token. \<not> InvalidTokens lc token) (Tokens lc))"
proof -
  let ?vs = "filter (\<lambda>token. \<not> InvalidTokens lc token) (Tokens lc)"
  from assms have "0 < length ?vs" by simp
  then have "r mod length ?vs < length ?vs" by simp
  then have "?vs ! (r mod length ?vs) \<in> set ?vs" by (rule nth_mem)
  with assms show ?thesis by (simp add: GetToken_def Let_def)
qed

text \<open>
  C5 (counterexample). The claim says that a credential marked invalid is never returned
  by the pick. With the single entry of the pool marked invalid, \<open>GetToken\<close> falls back to
  \<open>Tokens[0]\<close> and returns exactly that marked credential.
\<close>

theorem C5_GetToken_returns_invalid_counterexample:
  "InvalidTokens (mk_crawler [''T1''] [''T1'']) (GetToken 0 (mk_crawler [''T1''] [''T1'']))
   \<and> GetToken 0 (mk_crawler [''T1''] [''T1'']) = ''T1''"
  by (simp add: GetToken_def mk_crawler_def)

text \<open>
  C5 (amended). Whenever at least one entry of the pool is not marked invalid, \<open>GetToken\<close>
  returns an entry of the pool that is not marked invalid, whatever the generator draws.
  When every entry is marked, it returns the first entry of the pool (the documented
  fallback), and the empty string for an empty pool.
\<close>

theorem C5_GetToken_valid_when_one_remains:
  "((\<exists>t. t \<in> set (Tokens lc) \<and> \<not> InvalidTokens lc t) \<longrightarrow>
      GetToken r lc \<in> set (Tokens lc) \<and> \<not> InvalidTokens lc (GetToken r lc))
   \<and> (list_all (InvalidTokens lc) (Tokens lc) \<longrightarrow>
      GetToken r lc = (case Tokens lc of [] \<Rightarrow> [] | t0 # _ \<Rightarrow> t0))"
proof -
  have valid: "GetToken r lc \<in> set (Tokens lc) \<and> \<not> InvalidTokens lc (GetToken r lc)"
    if "\<exists>t. t \<in> set (Tokens lc) \<and> \<not> InvalidTokens lc t"
  proof -
    from that have "filter (\<lambda>token. \<not> InvalidTokens lc token) (Tokens lc) \<noteq> []"
      by (auto simp: filter_empty_conv)
    then have "GetToken r lc \<in> set (filter (\<lambda>token. \<not> InvalidTokens lc token) (Tokens lc))"
      by (rule GetToken_valid_nth)
    then show ?thesis by simp
  qed
  have fallback: "GetToken r lc = (case Tokens lc of [] \<Rightarrow> [] | t0 # _ \<Rightarrow> t0)"
    if "list_all (InvalidTokens lc) (Tokens lc)"
  proof -
    from that have "filter (\<lambda>token. \<not> InvalidTokens lc token) (Tokens lc) = []"
      by (simp add: list_all_iff filter_empty_conv)
    then show ?thesis by (simp add: GetToken_def)
  qed
  from valid fallback show ?thesis by blast
qed

theorem C5_GetToken_valid_witness:
  "''T2'' \<in> set (Tokens (mk_crawler [''T1'', ''T2''] [''T1'']))
   \<and> \<not> InvalidTokens (mk_crawler [''T1'', ''T2''] [''T1'']) ''T2''
   \<and> GetToken 7 (mk_crawler [''T1'', ''T2''] [''T1'']) = ''T2''
   \<and> GetToken 7 (mk_crawler [''T1'', ''T2''] [''T1''])
        \<in> set (Tokens (mk_crawler [''T1'', ''T2''] [''T1'']))
   \<and> \<not> InvalidTokens (mk_crawler [''T1'', ''T2''] [''T1''])
        (GetToken 7 (mk_crawler [''T1'', ''T2''] [''T1'']))
   \<and> list_all (InvalidTokens (mk_crawler [''T1'', ''T2''] [''T1'', ''T2'']))
        (Tokens (mk_crawler [''T1'', ''T2''] [''T1'', ''T2'']))
   \<and> GetToken 7 (mk_crawler [''T1'', ''T2''] [''T1'', ''T2'']) = ''T1''"
  using C5_GetToken_valid_when_one_remains [of "mk_crawler [''T1'', ''T2''] [''T1'']" 7]
    C5_GetToken_valid_when_one_remains [of "mk_crawler [''T1'', ''T2''] [''T1'', ''T2'']" 7]
  by (simp add: GetToken_def mk_crawler_def)

section \<open>Properties of the profile parser\<close>

lemma string_field_assert:
  "string_field p k = (case assert_string (map_of p k) of Some val \<Rightarrow> val | None \<Rightarrow> [])"
  unfolding string_field_def
  by (cases "map_of p k" rule: assert_string.cases) simp_all

lemma count_field_assert:
  "count_field p =
     (case assert_string (map_of p ''connectionCount'') of
        Some val \<Rightarrow> val
      | None \<Rightarrow> (case assert_float64 (map_of p ''connectionCount'') of
                   Some val \<Rightarrow> Sprintf_d (int_of_float64 val)
                 | None \<Rightarrow> []))"
  unfolding count_field_def
  by (cases "map_of p ''connectionCount''" rule: assert_string.cases) simp_all

lemma ExtractProfileData_person:
  assumes "unmarshal body = Inr data"
    and "map_of data ''persons'' = Some (GoSlice (GoMap p # rest))"
  shows "ExtractProfileData unmarshal body =
           (\<lparr>User = string_field p ''displayName'',
             LinkedInURL = string_field p ''linkedInUrl'',
             ConnectionCount = count_field p,
             Location = string_field p ''location''\<rparr>, None)"
  using assms
  by (simp add: ExtractProfileData_def string_field_assert count_field_assert zero_ProfileData_def
      split: option.split)

lemma ExtractProfileData_no_person:
  assumes "unmarshal body = Inr data"
    and "map_of data ''persons'' = None \<or> map_of data ''persons'' = Some (GoSlice [])"
  shows "ExtractProfileData unmarshal body = (zero_ProfileData, None)"
  using assms
  by (auto simp: ExtractProfileData_def)

lemma int_of_float64_truncate:
  "- (2 ^ 63) \<le> truncate_toward_zero v \<Longrightarrow> truncate_toward_zero v < 2 ^ 63 \<Longrightarrow>
   int_of_float64 v = truncate_toward_zero v"
  unfolding int_of_float64_def truncate_toward_zero_def Let_def
  by (auto simp: abs_if)

text \<open>
  C7. For a body that \<open>json.Unmarshal\<close> decodes into the generic object \<open>data\<close>: when
  \<open>persons\<close> is an array whose first element is an object \<open>p\<close>, the parser returns, with no
  error, the profile whose fields are the string values of \<open>displayName\<close>, \<open>linkedInUrl\<close>
  and \<open>location\<close> in \<open>p\<close> (the empty string for a field that is absent or not a string) and
  the stringified \<open>connectionCount\<close>; so \<open>displayName = A\<close> and \<open>linkedInUrl = B\<close> give
  \<open>User = A\<close> and \<open>LinkedInURL = B\<close>. When the key \<open>persons\<close> is missing or its array is
  empty, the parser returns the entirely empty profile with no error.
\<close>

theorem C7_ExtractProfileData_persons0:
  assumes "unmarshal body = Inr data"
  shows "(map_of data ''persons'' = Some (GoSlice (GoMap p # rest)) \<longrightarrow>
            ExtractProfileData unmarshal body =
              (\<lparr>User = string_field p ''displayName'',
                LinkedInURL = string_field p ''linkedInUrl'',
                ConnectionCount = count_field p,
                Location = string_field p ''location''\<rparr>, None))
       \<and> (map_of data ''persons'' = Some (GoSlice (GoMap p # rest))
            \<and> map_of p ''displayName'' = Some (GoString A)
            \<and> map_of p ''linkedInUrl'' = Some (GoString B) \<longrightarrow>
            User (fst (ExtractProfileData unmarshal body)) = A
            \<and> LinkedInURL (fst (ExtractProfileData unmarshal body)) = B
            \<and> snd (ExtractProfileData unmarshal body) = None)
       \<and> (map_of data ''persons'' = None \<or> map_of data ''persons'' = Some (GoSlice []) \<longrightarrow>
            ExtractProfileData unmarshal body = (zero_ProfileData, None))"
proof -
  note person = ExtractProfileData_person [of unmarshal body data p rest, OF assms]
  note no_person = ExtractProfileData_no_person [of unmarshal body data, OF assms]
  have named: "User (fst (ExtractProfileData unmarshal body)) = A
      \<and> LinkedInURL (fst (ExtractProfileData unmarshal body)) = B
      \<and> snd (ExtractProfileData unmarshal body) = None"
    if "map_of data ''persons'' = Some (GoSlice (GoMap p # rest))"
      and "map_of p ''displayName'' = Some (GoString A)"
      and "map_of p ''linkedInUrl'' = Some (GoString B)"
    using person [OF that(1)] that(2,3) by (simp add: string_field_def)
  from person no_person named show ?thesis by blast
qed

theorem C7_ExtractProfileData_witness:
  "decode_table [(body_alice, data_alice)] body_alice = Inr data_alice
   \<and> ExtractProfileData (decode_table [(body_alice, data_alice)]) body_alice =
        (\<lparr>User = ''Alice'', LinkedInURL = ''lnk/a'', ConnectionCount = [], Location = []\<rparr>, None)
   \<and> ExtractProfileData (decode_table [(''{}'', [])]) ''{}'' = (zero_ProfileData, None)"
proof -
  let ?p = "[(''displayName'', GoString ''Alice''), (''linkedInUrl'', GoString ''lnk/a'')]"
  have d1: "decode_table [(body_alice, data_alice)] body_alice = Inr data_alice"
    by (simp add: decode_table_def)
  have d2: "decode_table [(''{}'', [])] ''{}'' = Inr []"
    by (simp add: decode_table_def)
  have p1: "map_of data_alice ''persons'' = Some (GoSlice (GoMap ?p # []))"
    by (simp add: data_alice_def)
  have f: "string_field ?p ''displayName'' = ''Alice''" "string_field ?p ''linkedInUrl'' = ''lnk/a''"
    "string_field ?p ''location'' = []" "count_field ?p = []"
    by (simp_all add: string_field_def count_field_def)
  from C7_ExtractProfileData_persons0 [of "decode_table [(body_alice, data_alice)]" body_alice data_alice ?p "[]", OF d1] p1 f
  have e1: "ExtractProfileData (decode_table [(body_alice, data_alice)]) body_alice =
        (\<lparr>User = ''Alice'', LinkedInURL = ''lnk/a'', ConnectionCount = [], Location = []\<rparr>, None)"
    by simp
  from C7_ExtractProfileData_persons0 [of "decode_table [(''{}'', [])]" "''{}''" "[]", OF d2]
  have e2: "ExtractProfileData (decode_table [(''{}'', [])]) ''{}'' = (zero_ProfileData, None)"
    by simp
  from d1 e1 e2 show ?thesis by simp
qed


lemma count_field_cases:
  "(map_of p ''connectionCount'' = Some (GoFloat64 v) \<longrightarrow> count_field p = Sprintf_d (int_of_float64 v))
   \<and> (map_of p ''connectionCount'' = Some (GoString s) \<longrightarrow> count_field p = s)
   \<and> ((\<forall>x. map_of p ''connectionCount'' \<noteq> Some (GoFloat64 x))
        \<and> (\<forall>x. map_of p ''connectionCount'' \<noteq> Some (GoString x)) \<longrightarrow> count_field p = [])"
  unfolding count_field_def
  by (cases "map_of p ''connectionCount''" rule: assert_string.cases) simp_all

text \<open>
  C10 (amended). With \<open>persons[0]\<close> the object \<open>p\<close>: when \<open>connectionCount\<close> is a number \<open>v\<close>
  (the decoded \<open>float64\<close>) whose truncation toward zero fits the 64-bit \<open>int\<close>, the stored
  \<open>ConnectionCount\<close> is the decimal string of \<open>v\<close> truncated toward zero; when it is a
  string it is copied as it is; for any other type, or when absent, the field stays empty.
\<close>

theorem C10_connectionCount_truncated:
  assumes "unmarshal body = Inr data"
    and "map_of data ''persons'' = Some (GoSlice (GoMap p # rest))"
  shows "(map_of p ''connectionCount'' = Some (GoFloat64 v)
            \<and> - (2 ^ 63) \<le> truncate_toward_zero v \<and> truncate_toward_zero v < 2 ^ 63 \<longrightarrow>
          ConnectionCount (fst (ExtractProfileData unmarshal body)) = Sprintf_d (truncate_toward_zero v))
       \<and> (map_of p ''connectionCount'' = Some (GoString s) \<longrightarrow>
          ConnectionCount (fst (ExtractProfileData unmarshal body)) = s)
       \<and> ((\<forall>x. map_of p ''connectionCount'' \<noteq> Some (GoFloat64 x))
            \<and> (\<forall>x. map_of p ''connectionCount'' \<noteq> Some (GoString x)) \<longrightarrow>
          ConnectionCount (fst (ExtractProfileData unmarshal body)) = [])"
proof -
  have "ConnectionCount (fst (ExtractProfileData unmarshal body)) = count_field p"
    using ExtractProfileData_person [of unmarshal body data p rest, OF assms] by simp
  then show ?thesis
    using count_field_cases [of p v s] int_of_float64_truncate [of v] by auto
qed

theorem C10_connectionCount_witness:
  "ConnectionCount (fst (ExtractProfileData (decode_table [(''b'', data_count (GoFloat64 (39/10)))]) ''b'')) = ''3''
   \<and> truncate_toward_zero (39/10) = 3
   \<and> ConnectionCount (fst (ExtractProfileData (decode_table [(''b'', data_count (GoFloat64 (-39/10)))]) ''b'')) = ''-3''
   \<and> ConnectionCount (fst (ExtractProfileData (decode_table [(''b'', data_count (GoString ''500+''))]) ''b'')) = ''500+''
   \<and> ConnectionCount (fst (ExtractProfileData (decode_table [(''b'', data_count (GoBool True))]) ''b'')) = []"
proof -
  let ?p = "\<lambda>c. [(''displayName'', GoString ''Bob''), (''connectionCount'', c)]"
  have d: "decode_table [(''b'', data_count c)] ''b'' = Inr (data_count c)" for c
    by (simp add: decode_table_def)
  have p: "map_of (data_count c) ''persons'' = Some (GoSlice (GoMap (?p c) # []))" for c
    by (simp add: data_count_def)
  note t = C10_connectionCount_truncated [of "decode_table [(''b'', data_count c)]" "''b''" "data_count c" "?p c" "[]" for c, OF d p]
  have t1: "truncate_toward_zero (39/10) = 3" "truncate_toward_zero (-39/10) = -3"
    by (simp_all add: truncate_toward_zero_def)
  have s1: "Sprintf_d 3 = ''3''" "Sprintf_d (-3) = ''-3''"
    by (simp_all add: Sprintf_d_def digits10.simps digit_char_def)
  have a: "ConnectionCount (fst (ExtractProfileData (decode_table [(''b'', data_count (GoFloat64 (39/10)))]) ''b'')) = ''3''"
    using t [of "GoFloat64 (39/10)" "39/10"] t1 s1 by simp
  have b: "ConnectionCount (fst (ExtractProfileData (decode_table [(''b'', data_count (GoFloat64 (-39/10)))]) ''b'')) = ''-3''"
    using t [of "GoFloat64 (-39/10)" "-39/10"] t1 s1 by simp
  have c: "ConnectionCount (fst (ExtractProfileData (decode_table [(''b'', data_count (GoString ''500+''))]) ''b'')) = ''500+''"
    using t [of "GoString ''500+''" _ "''500+''"] by simp
  have e: "ConnectionCount (fst (ExtractProfileData (decode_table [(''b'', data_count (GoBool True))]) ''b'')) = []"
    using t [of "GoBool True"] by simp
  from a b c e t1 show ?thesis by simp
qed

text \<open>
  C10 (counterexample). For the number \<open>2 ^ 70\<close> (a \<open>float64\<close> value, the JSON number
  \<open>1180591620717411303424\<close>) the truncation does not fit \<open>int\<close>: the stored string is that of
  the smallest \<open>int64\<close>, not the decimal string of the truncated number. Whatever an
  implementation yields there is a 64-bit integer, so never \<open>2 ^ 70\<close>.
\<close>

theorem C10_connectionCount_out_of_range_counterexample:
  "ConnectionCount (fst (ExtractProfileData (decode_table [(''b'', data_count (GoFloat64 (2 ^ 70)))]) ''b''))
     = ''-9223372036854775808''
   \<and> Sprintf_d (truncate_toward_zero (2 ^ 70)) = ''1180591620717411303424''"
  by (simp add: ExtractProfileData_def decode_table_def data_count_def zero_ProfileData_def
      int_of_float64_def truncate_toward_zero_def Sprintf_d_def digits10.simps digit_char_def)

section \<open>Properties of the validator\<close>

lemma doQueryProfile_events:
  "events (snd (doQueryProfile env email token w)) =
     events w @ [Request email token (endpoint env (clock w) email token)]"
  by (simp add: doQueryProfile_def Let_def tick_def emit_def split: transport.split option.split)

lemma doQueryProfile_accept:
  "(q_err (fst (doQueryProfile env email token w)) = None
      \<or> q_statusCode (fst (doQueryProfile env email token w)) = 429
      \<or> q_statusCode (fst (doQueryProfile env email token w)) = 500)
    = probe_accepted (endpoint env (clock w) email token)"
  by (cases "endpoint env (clock w) email token")
     (auto simp: doQueryProfile_def Let_def failed_query_def split: option.split)

lemma doQueryProfile_hard:
  "\<not> probe_accepted (endpoint env (clock w) email token) \<Longrightarrow>
   (q_statusCode (fst (doQueryProfile env email token w)) = 401
      \<or> q_statusCode (fst (doQueryProfile env email token w)) = 424)
    = probe_hard_rejected (endpoint env (clock w) email token)"
  by (cases "endpoint env (clock w) email token")
     (auto simp: doQueryProfile_def Let_def failed_query_def split: option.split)

lemma probes_of_append: "probes_of (xs @ ys) = probes_of xs @ probes_of ys"
  by (induction xs rule: probes_of.induct) simp_all

lemma removals_of_append: "removals_of (xs @ ys) = removals_of xs @ removals_of ys"
  by (induction xs rule: removals_of.induct) simp_all

lemma RemoveTokenFromFile_events:
  "events (snd (RemoveTokenFromFile env ts token w)) = events w @ [RemoveToken token]"
  by (simp add: RemoveTokenFromFile_def InvalidateToken_def Let_def emit_def tick_def)

lemma ValidateExistingTokens_loop_spec:
  "\<exists>evs. events (snd (ValidateExistingTokens_loop env vs te tokens valid w)) = events w @ evs
     \<and> map fst (probes_of evs) = tokens
     \<and> fst (ValidateExistingTokens_loop env vs te tokens valid w)
         = valid @ map fst (filter (\<lambda>p. probe_accepted (snd p)) (probes_of evs))
     \<and> removals_of evs = map fst (filter (\<lambda>p. probe_hard_rejected (snd p)) (probes_of evs))"
proof (induction tokens arbitrary: valid w)
  case Nil
  then show ?case by simp
next
  case (Cons token rest)
  obtain r w1 where q: "doQueryProfile env te token w = (r, w1)"
    by (cases "doQueryProfile env te token w")
  let ?resp = "endpoint env (clock w) te token"
  have e1: "events w1 = events w @ [Request te token ?resp]"
    using doQueryProfile_events [of env te token w] q by simp
  show ?case
  proof (cases "probe_accepted ?resp")
    case True
    then have acc: "q_err r = None \<or> q_statusCode r = 429 \<or> q_statusCode r = 500"
      using doQueryProfile_accept [of env te token w] q by simp
    have nh: "\<not> probe_hard_rejected ?resp"
      using True by (cases ?resp) auto
    from Cons.IH [of "valid @ [token]" "sleep_ms 1000 w1"]
    obtain evs where
      "events (snd (ValidateExistingTokens_loop env vs te rest (valid @ [token]) (sleep_ms 1000 w1)))
         = events (sleep_ms 1000 w1) @ evs"
      "map fst (probes_of evs) = rest"
      "fst (ValidateExistingTokens_loop env vs te rest (valid @ [token]) (sleep_ms 1000 w1))
         = (valid @ [token]) @ map fst (filter (\<lambda>p. probe_accepted (snd p)) (probes_of evs))"
      "removals_of evs = map fst (filter (\<lambda>p. probe_hard_rejected (snd p)) (probes_of evs))"
      by blast
    then show ?thesis
      using q acc e1 True nh
      by (intro exI [of _ "Request te token ?resp # Sleep 1000 # evs"])
         (simp add: sleep_ms_def emit_def)
  next
    case False
    then have rej: "\<not> (q_err r = None \<or> q_statusCode r = 429 \<or> q_statusCode r = 500)"
      using doQueryProfile_accept [of env te token w] q by simp
    have hard: "(q_statusCode r = 401 \<or> q_statusCode r = 424) = probe_hard_rejected ?resp"
      using doQueryProfile_hard [OF False] q by simp
    show ?thesis
    proof (cases "probe_hard_rejected ?resp")
      case True
      let ?w2 = "snd (RemoveTokenFromFile env (vs_tokenStorage vs) token w1)"
      have e2: "events ?w2 = events w1 @ [RemoveToken token]"
        by (simp add: RemoveTokenFromFile_events)
      from Cons.IH [of valid "sleep_ms 1000 ?w2"]
      obtain evs where
        "events (snd (ValidateExistingTokens_loop env vs te rest valid (sleep_ms 1000 ?w2)))
           = events (sleep_ms 1000 ?w2) @ evs"
        "map fst (probes_of evs) = rest"
        "fst (ValidateExistingTokens_loop env vs te rest valid (sleep_ms 1000 ?w2))
           = valid @ map fst (filter (\<lambda>p. probe_accepted (snd p)) (probes_of evs))"
        "removals_of evs = map fst (filter (\<lambda>p. probe_hard_rejected (snd p)) (probes_of evs))"
        by blast
      then show ?thesis
        using q rej e1 e2 False hard True
        by (intro exI [of _ "Request te token ?resp # RemoveToken token # Sleep 1000 # evs"])
           (auto simp: sleep_ms_def emit_def)
    next
      case nohard: False
      from Cons.IH [of valid "sleep_ms 1000 w1"]
      obtain evs where
        "events (snd (ValidateExistingTokens_loop env vs te rest valid (sleep_ms 1000 w1)))
           = events (sleep_ms 1000 w1) @ evs"
        "map fst (probes_of evs) = rest"
        "fst (ValidateExistingTokens_loop env vs te rest valid (sleep_ms 1000 w1))
           = valid @ map fst (filter (\<lambda>p. probe_accepted (snd p)) (probes_of evs))"
        "removals_of evs = map fst (filter (\<lambda>p. probe_hard_rejected (snd p)) (probes_of evs))"
        by blast
      then show ?thesis
        using q rej e1 False hard nohard
        by (intro exI [of _ "Request te token ?resp # Sleep 1000 # evs"])
           (auto simp: sleep_ms_def emit_def)
    qed
  qed
qed


lemma ValidateTokensBatch_loop_spec:
  "\<exists>evs. events (snd (ValidateTokensBatch_loop env te tokens valid w)) = events w @ evs
     \<and> map fst (probes_of evs) = tokens
     \<and> fst (ValidateTokensBatch_loop env te tokens valid w)
         = valid @ map fst (filter (\<lambda>p. probe_accepted (snd p)) (probes_of evs))
     \<and> removals_of evs = []"
proof (induction tokens arbitrary: valid w)
  case Nil
  then show ?case by simp
next
  case (Cons token rest)
  obtain r w1 where q: "doQueryProfile env te token w = (r, w1)"
    by (cases "doQueryProfile env te token w")
  let ?resp = "endpoint env (clock w) te token"
  have e1: "events w1 = events w @ [Request te token ?resp]"
    using doQueryProfile_events [of env te token w] q by simp
  have acc: "(q_err r = None \<or> q_statusCode r = 429 \<or> q_statusCode r = 500) = probe_accepted ?resp"
    using doQueryProfile_accept [of env te token w] q by simp
  let ?valid' = "if probe_accepted ?resp then valid @ [token] else valid"
  from Cons.IH [of ?valid' "sleep_ms 1000 w1"]
  obtain evs where
    "events (snd (ValidateTokensBatch_loop env te rest ?valid' (sleep_ms 1000 w1)))
       = events (sleep_ms 1000 w1) @ evs"
    "map fst (probes_of evs) = rest"
    "fst (ValidateTokensBatch_loop env te rest ?valid' (sleep_ms 1000 w1))
       = ?valid' @ map fst (filter (\<lambda>p. probe_accepted (snd p)) (probes_of evs))"
    "removals_of evs = []"
    by blast
  then show ?case
    using q acc e1
    by (intro exI [of _ "Request te token ?resp # Sleep 1000 # evs"])
       (auto simp: sleep_ms_def emit_def)
qed

lemma new_events_append: "events w' = events w @ evs \<Longrightarrow> new_events w w' = evs"
  by (simp add: new_events_def)

lemma ValidateExistingTokens_spec:
  assumes "tokens \<noteq> []" and "fs_ok env (clock w)"
  shows "map fst (probes_of (new_events w (snd (ValidateExistingTokens env vs tokens totalEmails w)))) = tokens
    \<and> fst (ValidateExistingTokens env vs tokens totalEmails w) =
        Inr (map fst (filter (\<lambda>p. probe_accepted (snd p))
              (probes_of (new_events w (snd (ValidateExistingTokens env vs tokens totalEmails w))))))
    \<and> removals_of (new_events w (snd (ValidateExistingTokens env vs tokens totalEmails w))) =
        map fst (filter (\<lambda>p. probe_hard_rejected (snd p))
              (probes_of (new_events w (snd (ValidateExistingTokens env vs tokens totalEmails w)))))"
proof -
  let ?loop = "ValidateExistingTokens_loop env vs (testEmail_of totalEmails) tokens [] (tick w)"
  have r: "ValidateExistingTokens env vs tokens totalEmails w = (Inr (fst ?loop), snd ?loop)"
    using assms by (simp add: ValidateExistingTokens_def split: prod.split)
  from ValidateExistingTokens_loop_spec [of env vs "testEmail_of totalEmails" tokens "[]" "tick w"]
  obtain evs where e:
    "events (snd ?loop) = events (tick w) @ evs"
    "map fst (probes_of evs) = tokens"
    "fst ?loop = [] @ map fst (filter (\<lambda>p. probe_accepted (snd p)) (probes_of evs))"
    "removals_of evs = map fst (filter (\<lambda>p. probe_hard_rejected (snd p)) (probes_of evs))"
    by blast
  have n: "new_events w (snd ?loop) = evs"
    using e(1) by (simp add: new_events_def tick_def)
  show ?thesis
    using e(2,3,4) by (simp add: r n)
qed

lemma ValidateTokensBatch_spec:
  assumes "tokens \<noteq> []" and "fs_ok env (clock w)"
  shows "map fst (probes_of (new_events w (snd (ValidateTokensBatch env vs tokens totalEmails w)))) = tokens
    \<and> fst (ValidateTokensBatch env vs tokens totalEmails w) =
        Inr (map fst (filter (\<lambda>p. probe_accepted (snd p))
              (probes_of (new_events w (snd (ValidateTokensBatch env vs tokens totalEmails w))))))
    \<and> removals_of (new_events w (snd (ValidateTokensBatch env vs tokens totalEmails w))) = []"
proof -
  let ?loop = "ValidateTokensBatch_loop env (testEmail_of totalEmails) tokens [] (tick w)"
  have r: "ValidateTokensBatch env vs tokens totalEmails w = (Inr (fst ?loop), snd ?loop)"
    using assms by (simp add: ValidateTokensBatch_def split: prod.split)
  from ValidateTokensBatch_loop_spec [of env "testEmail_of totalEmails" tokens "[]" "tick w"]
  obtain evs where e:
    "events (snd ?loop) = events (tick w) @ evs"
    "map fst (probes_of evs) = tokens"
    "fst ?loop = [] @ map fst (filter (\<lambda>p. probe_accepted (snd p)) (probes_of evs))"
    "removals_of evs = []"
    by blast
  have n: "new_events w (snd ?loop) = evs"
    using e(1) by (simp add: new_events_def tick_def)
  show ?thesis
    using e(2,3,4) by (simp add: r n)
qed

text \<open>
  C4 (amended). \<open>ValidateExistingTokens\<close> and \<open>ValidateTokensBatch\<close> probe every credential of
  the list once, in order. A credential is accepted exactly when its probe came back with
  status 200 and a readable body, or with status 429 or 500; a probe that ends in a
  transport error is rejected. \<open>ValidateExistingTokens\<close> hands to \<open>RemoveTokenFromFile\<close>
  exactly the credentials whose probe came back with 401 or 424; \<open>ValidateTokensBatch\<close>
  hands it none.
\<close>

theorem C4_validator_classification:
  assumes "tokens \<noteq> []" and "fs_ok env (clock w)"
  shows "(map fst (probes_of (new_events w (snd (ValidateExistingTokens env vs tokens totalEmails w)))) = tokens
    \<and> fst (ValidateExistingTokens env vs tokens totalEmails w) =
        Inr (map fst (filter (\<lambda>p. probe_accepted (snd p))
              (probes_of (new_events w (snd (ValidateExistingTokens env vs tokens totalEmails w))))))
    \<and> removals_of (new_events w (snd (ValidateExistingTokens env vs tokens totalEmails w))) =
        map fst (filter (\<lambda>p. probe_hard_rejected (snd p))
              (probes_of (new_events w (snd (ValidateExistingTokens env vs tokens totalEmails w))))))
    \<and> (map fst (probes_of (new_events w (snd (ValidateTokensBatch env vs tokens totalEmails w)))) = tokens
    \<and> fst (ValidateTokensBatch env vs tokens totalEmails w) =
        Inr (map fst (filter (\<lambda>p. probe_accepted (snd p))
              (probes_of (new_events w (snd (ValidateTokensBatch env vs tokens totalEmails w))))))
    \<and> removals_of (new_events w (snd (ValidateTokensBatch env vs tokens totalEmails w))) = [])"
  using ValidateExistingTokens_spec [OF assms, of vs totalEmails]
    ValidateTokensBatch_spec [OF assms, of vs totalEmails]
  by (rule conjI)

lemma ValidateExisting_probe_run:
  "fst (ValidateExistingTokens (mk_env (by_token probe_replies)) NewValidatorService probe_tokens []
          (mk_world None [] probe_tokens)) = Inr [''T200'', ''T429'', ''T500'']"
  by (simp add: ValidateExistingTokens_def mk_env_def mk_world_def probe_tokens_def probe_replies_def
      by_token_def testEmail_of_def doQueryProfile_def tick_def emit_def sleep_ms_def failed_query_def
      RemoveTokenFromFile_def NewValidatorService_def NewTokenStorage_def Let_def)

lemma ValidateExisting_probe_removals:
  "removals_of (new_events (mk_world None [] probe_tokens)
      (snd (ValidateExistingTokens (mk_env (by_token probe_replies)) NewValidatorService probe_tokens []
          (mk_world None [] probe_tokens)))) = [''T401'', ''T424'']"
  by (simp add: ValidateExistingTokens_def mk_env_def mk_world_def probe_tokens_def probe_replies_def
      by_token_def testEmail_of_def doQueryProfile_def tick_def emit_def sleep_ms_def failed_query_def
      RemoveTokenFromFile_def NewValidatorService_def NewTokenStorage_def Let_def new_events_def)

lemma ValidateBatch_probe_run:
  "fst (ValidateTokensBatch (mk_env (by_token probe_replies)) NewValidatorService probe_tokens []
          (mk_world None [] probe_tokens)) = Inr [''T200'', ''T429'', ''T500'']"
  by (simp add: ValidateTokensBatch_def mk_env_def mk_world_def probe_tokens_def probe_replies_def
      by_token_def testEmail_of_def doQueryProfile_def tick_def emit_def sleep_ms_def failed_query_def
      Let_def)


theorem C4_validator_witness:
  "probe_tokens \<noteq> []
   \<and> fs_ok (mk_env (by_token probe_replies)) (clock (mk_world None [] probe_tokens))
   \<and> map fst (probes_of (new_events (mk_world None [] probe_tokens)
         (snd (ValidateExistingTokens (mk_env (by_token probe_replies)) NewValidatorService
            probe_tokens [] (mk_world None [] probe_tokens))))) = probe_tokens
   \<and> fst (ValidateExistingTokens (mk_env (by_token probe_replies)) NewValidatorService probe_tokens []
          (mk_world None [] probe_tokens)) = Inr [''T200'', ''T429'', ''T500'']
   \<and> removals_of (new_events (mk_world None [] probe_tokens)
         (snd (ValidateExistingTokens (mk_env (by_token probe_replies)) NewValidatorService
            probe_tokens [] (mk_world None [] probe_tokens)))) = [''T401'', ''T424'']
   \<and> fst (ValidateTokensBatch (mk_env (by_token probe_replies)) NewValidatorService probe_tokens []
          (mk_world None [] probe_tokens)) = Inr [''T200'', ''T429'', ''T500'']
   \<and> removals_of (new_events (mk_world None [] probe_tokens)
         (snd (ValidateTokensBatch (mk_env (by_token probe_replies)) NewValidatorService
            probe_tokens [] (mk_world None [] probe_tokens)))) = []"
proof -
  have h1: "probe_tokens \<noteq> []"
    by (simp add: probe_tokens_def)
  have h2: "fs_ok (mk_env (by_token probe_replies)) (clock (mk_world None [] probe_tokens))"
    by (simp add: mk_env_def)
  note t = C4_validator_classification [OF h1 h2, of NewValidatorService "[]"]
  from h1 h2 t ValidateExisting_probe_run ValidateExisting_probe_removals ValidateBatch_probe_run
  show ?thesis by simp
qed

text \<open>
  C4 (counterexample). The claim accepts a credential whose probe ends in a transport
  error. Such a probe returns status 0 with an error, which fails the validator's test:
  the credential is rejected (and nothing is handed to \<open>RemoveTokenFromFile\<close>).
\<close>

theorem C4_transport_error_rejected_counterexample:
  "probes_of (new_events (mk_world None [] [''T1''])
      (snd (ValidateExistingTokens (mk_env (by_token [])) NewValidatorService [''T1''] []
          (mk_world None [] [''T1''])))) = [(''T1'', TransportError)]
   \<and> fst (ValidateExistingTokens (mk_env (by_token [])) NewValidatorService [''T1''] []
          (mk_world None [] [''T1''])) = Inr []
   \<and> fst (ValidateTokensBatch (mk_env (by_token [])) NewValidatorService [''T1''] []
          (mk_world None [] [''T1''])) = Inr []"
  by (simp add: ValidateExistingTokens_def ValidateTokensBatch_def mk_env_def mk_world_def
      by_token_def testEmail_of_def doQueryProfile_def tick_def emit_def sleep_ms_def failed_query_def
      Let_def new_events_def)

section \<open>Properties of the query with credential switching\<close>

text \<open>The definitions a concrete run of the query unfolds.\<close>

lemmas run_defs = QueryProfileWithRetryLogic_def doQueryProfile_def GetToken_def GetValidTokenCount_def
  MarkTokenAsInvalid_def CheckIfAllTokensInvalid_def RemoveTokenFromFile_def InvalidateToken_def
  mk_env_def mk_crawler_def mk_world_def mk_row_def mk_token_row_def by_token_def tick_def emit_def
  sleep_ms_def failed_query_def new_events_def Let_def

lemma doQueryProfile_status:
  "q_statusCode (fst (doQueryProfile env email token w)) = status_of (endpoint env (clock w) email token)"
  by (cases "endpoint env (clock w) email token")
     (auto simp: doQueryProfile_def Let_def failed_query_def split: option.split)

lemma doQueryProfile_world:
  "snd (doQueryProfile env email token w) =
     tick (emit (Request email token (endpoint env (clock w) email token)) w)"
  by (simp add: doQueryProfile_def Let_def split: transport.split option.split)

lemma GetToken_after_mark:
  assumes d: "distinct (Tokens lc)" and ne: "[] \<notin> set (Tokens lc)"
    and c: "GetValidTokenCount lc > 1"
  shows "GetToken r (MarkTokenAsInvalid t1 lc) \<noteq> []
       \<and> GetToken r (MarkTokenAsInvalid t1 lc) \<noteq> t1
       \<and> GetToken r (MarkTokenAsInvalid t1 lc) \<in> set (Tokens lc)
       \<and> \<not> InvalidTokens lc (GetToken r (MarkTokenAsInvalid t1 lc))"
proof -
  let ?vs = "filter (\<lambda>token. \<not> InvalidTokens lc token) (Tokens lc)"
  let ?lc' = "MarkTokenAsInvalid t1 lc"
  let ?vs' = "filter (\<lambda>token. \<not> InvalidTokens ?lc' token) (Tokens ?lc')"
  have dv: "distinct ?vs" using d by simp
  have "length ?vs > 1" using c by (simp add: GetValidTokenCount_def)
  then obtain a b rest where ab: "?vs = a # b # rest"
    by (cases ?vs; cases "tl ?vs") auto
  with dv have "a \<noteq> b" by simp
  then have "a \<noteq> t1 \<or> b \<noteq> t1" by auto
  moreover have "a \<in> set ?vs" "b \<in> set ?vs" using ab by simp_all
  ultimately obtain y where y: "y \<in> set ?vs" "y \<noteq> t1" by blast
  then have "y \<in> set ?vs'" by (simp add: MarkTokenAsInvalid_def)
  then have "?vs' \<noteq> []" by (metis empty_iff empty_set)
  then have "GetToken r ?lc' \<in> set ?vs'" by (rule GetToken_valid_nth)
  then show ?thesis using ne by (auto simp: MarkTokenAsInvalid_def split: if_splits)
qed


lemma tick_simps:
  "clock (tick w) = Suc (clock w)" "events (tick w) = events w" "tokens_tbl (tick w) = tokens_tbl w"
  "emails_tbl (tick w) = emails_tbl w" "hit_txt (tick w) = hit_txt w" "crawler (tick w) = crawler w"
  "shutdownRequested (tick w) = shutdownRequested w"
  by (simp_all add: tick_def)

lemma emit_simps:
  "clock (emit ev w) = clock w" "events (emit ev w) = events w @ [ev]"
  "tokens_tbl (emit ev w) = tokens_tbl w" "emails_tbl (emit ev w) = emails_tbl w"
  "hit_txt (emit ev w) = hit_txt w" "crawler (emit ev w) = crawler w"
  "shutdownRequested (emit ev w) = shutdownRequested w"
  by (simp_all add: emit_def)

text \<open>
  C3 (amended). A call of \<open>QueryProfileWithRetryLogic\<close> that passes the latch and the
  governor, and whose first request (with the picked credential \<open>t1\<close>) comes back 429:
  \<^item> when more than one entry of the pool is valid, \<open>t1\<close> is marked invalid in the pool,
    the store's credential table is untouched and nothing is handed to
    \<open>RemoveTokenFromFile\<close>; the query is reissued at once, in the same call, with the
    credential \<open>t2\<close> picked next, provided \<open>t2\<close> is non-empty and differs from \<open>t1\<close>, which
    is always so when the entries of the pool are pairwise distinct and non-empty (then
    \<open>t2\<close> is a valid entry); otherwise the 429 result is returned with no second request;
  \<^item> when at most one entry is valid, the call sleeps one second and reissues the query
    with the same credential, the pool unchanged.
  The attempt counter is a variable of \<open>retryEmailWithNewLogic\<close>, which calls this
  function once per attempt.
\<close>

theorem C3_rate_limited_query:
  fixes env :: env and qs :: QueryService and email :: string and lc :: LinkedInCrawler and w :: world
  defines "t1 \<equiv> GetToken (rnd env (Suc (clock w))) lc"
    and "t2 \<equiv> GetToken (rnd env (clock w + 3)) (MarkTokenAsInvalid (GetToken (rnd env (Suc (clock w))) lc) lc)"
    and "out \<equiv> QueryProfileWithRetryLogic env qs email lc w"
  assumes latch: "\<not> AllTokensFailed lc"
    and adm: "admit env (clock w) = Admitted"
    and r429: "endpoint env (clock w + 2) email t1 = Response 429 content"
  shows "(GetValidTokenCount lc > 1 \<longrightarrow>
            fst (snd out) = MarkTokenAsInvalid t1 lc
          \<and> tokens_tbl (snd (snd out)) = tokens_tbl w
          \<and> removals_of (new_events w (snd (snd out))) = []
          \<and> (t2 \<noteq> [] \<and> t2 \<noteq> t1 \<longrightarrow>
                new_events w (snd (snd out)) =
                  [Request email t1 (Response 429 content),
                   Request email t2 (endpoint env (clock w + 4) email t2)]
              \<and> q_statusCode (fst out) = status_of (endpoint env (clock w + 4) email t2))
          \<and> (t2 = [] \<or> t2 = t1 \<longrightarrow>
                new_events w (snd (snd out)) = [Request email t1 (Response 429 content)]
              \<and> q_statusCode (fst out) = 429)
          \<and> (distinct (Tokens lc) \<and> [] \<notin> set (Tokens lc) \<longrightarrow>
                t2 \<noteq> [] \<and> t2 \<noteq> t1 \<and> t2 \<in> set (Tokens lc) \<and> \<not> InvalidTokens lc t2))
       \<and> (GetValidTokenCount lc \<le> 1 \<longrightarrow>
            fst (snd out) = lc
          \<and> tokens_tbl (snd (snd out)) = tokens_tbl w
          \<and> new_events w (snd (snd out)) =
                [Request email t1 (Response 429 content), Sleep 1000,
                 Request email t1 (endpoint env (clock w + 3) email t1)]
          \<and> q_statusCode (fst out) = status_of (endpoint env (clock w + 3) email t1))"
proof -
  let ?w0 = "tick (tick w)"
  obtain r1 w1 where q1: "doQueryProfile env email t1 ?w0 = (r1, w1)"
    by (cases "doQueryProfile env email t1 ?w0")
  have c0: "clock ?w0 = clock w + 2" by (simp add: tick_simps)
  have s1: "q_statusCode r1 = 429"
    using doQueryProfile_status [of env email t1 ?w0] q1 r429 c0 by simp
  have w1: "w1 = tick (emit (Request email t1 (Response 429 content)) ?w0)"
    using doQueryProfile_world [of env email t1 ?w0] q1 r429 c0 by simp
  have cw1: "clock w1 = clock w + 3" by (simp add: w1 tick_simps emit_simps)
  show ?thesis
  proof (cases "GetValidTokenCount lc > 1")
    case many: True
    have t2_def': "t2 = GetToken (rnd env (clock w1)) (MarkTokenAsInvalid t1 lc)"
      by (simp add: t2_def t1_def cw1)
    let ?w2 = "tick w1"
    have guard: "distinct (Tokens lc) \<and> [] \<notin> set (Tokens lc) \<longrightarrow>
                t2 \<noteq> [] \<and> t2 \<noteq> t1 \<and> t2 \<in> set (Tokens lc) \<and> \<not> InvalidTokens lc t2"
      using GetToken_after_mark [of lc "rnd env (clock w1)" t1] many by (simp add: t2_def')
    show ?thesis
    proof (cases "t2 \<noteq> [] \<and> t2 \<noteq> t1")
      case True
      obtain r2 w3 where q2: "doQueryProfile env email t2 ?w2 = (r2, w3)"
        by (cases "doQueryProfile env email t2 ?w2")
      have c2: "clock ?w2 = clock w + 4" by (simp add: cw1 tick_simps)
      have s2: "q_statusCode r2 = status_of (endpoint env (clock w + 4) email t2)"
        using doQueryProfile_status [of env email t2 ?w2] q2 c2 by simp
      have w3: "w3 = tick (emit (Request email t2 (endpoint env (clock w + 4) email t2)) ?w2)"
        using doQueryProfile_world [of env email t2 ?w2] q2 c2 by simp
      have o: "out = (r2, MarkTokenAsInvalid t1 lc, w3)"
        using latch adm q1 s1 many True q2 t2_def'
        by (simp add: out_def QueryProfileWithRetryLogic_def Let_def t1_def [symmetric] tick_simps)
      show ?thesis
        using many True guard s2
        by (simp add: o w3 w1 new_events_def tick_simps emit_simps)
    next
      case False
      have o: "out = (r1, MarkTokenAsInvalid t1 lc, ?w2)"
        using latch adm q1 s1 many False t2_def'
        by (auto simp: out_def QueryProfileWithRetryLogic_def Let_def t1_def [symmetric] tick_simps)
      show ?thesis
        using many False guard s1
        by (auto simp: o w1 new_events_def tick_simps emit_simps)
    qed
  next
    case one: False
    let ?w2 = "sleep_ms 1000 w1"
    obtain r2 w3 where q2: "doQueryProfile env email t1 ?w2 = (r2, w3)"
      by (cases "doQueryProfile env email t1 ?w2")
    have c2: "clock ?w2 = clock w + 3" by (simp add: cw1 sleep_ms_def emit_simps)
    have s2: "q_statusCode r2 = status_of (endpoint env (clock w + 3) email t1)"
      using doQueryProfile_status [of env email t1 ?w2] q2 c2 by simp
    have w3: "w3 = tick (emit (Request email t1 (endpoint env (clock w + 3) email t1)) ?w2)"
      using doQueryProfile_world [of env email t1 ?w2] q2 c2 by simp
    have o: "out = (r2, lc, w3)"
      using latch adm q1 s1 one q2
      by (simp add: out_def QueryProfileWithRetryLogic_def Let_def t1_def [symmetric] tick_simps)
    show ?thesis
      using one s2
      by (simp add: o w3 w1 new_events_def tick_simps emit_simps sleep_ms_def)
  qed
qed


lemma swap_run_events:
  "new_events (mk_world None [''d@x.com''] [''T1'', ''T2''])
      (snd (snd (QueryProfileWithRetryLogic env_429 NewQueryService ''d@x.com''
                   (mk_crawler [''T1'', ''T2''] []) (mk_world None [''d@x.com''] [''T1'', ''T2'']))))
     = [Request ''d@x.com'' ''T1'' (Response 429 None),
        Request ''d@x.com'' ''T2'' (Response 200 (Some ''{}''))]"
  by (simp add: run_defs env_429_def)

lemma swap_run_status:
  "q_statusCode (fst (QueryProfileWithRetryLogic env_429 NewQueryService ''d@x.com''
                   (mk_crawler [''T1'', ''T2''] []) (mk_world None [''d@x.com''] [''T1'', ''T2''])))
     = 200"
  by (simp add: run_defs env_429_def)

lemma single_run_events:
  "new_events (mk_world None [''d@x.com''] [''T1''])
      (snd (snd (QueryProfileWithRetryLogic env_429 NewQueryService ''d@x.com''
                   (mk_crawler [''T1''] []) (mk_world None [''d@x.com''] [''T1'']))))
     = [Request ''d@x.com'' ''T1'' (Response 429 None), Sleep 1000,
        Request ''d@x.com'' ''T1'' (Response 429 None)]"
  by (simp add: run_defs env_429_def)

theorem C3_rate_limited_witness:
  "\<not> AllTokensFailed (mk_crawler [''T1'', ''T2''] [])
   \<and> admit env_429 (clock (mk_world None [''d@x.com''] [''T1'', ''T2''])) = Admitted
   \<and> GetValidTokenCount (mk_crawler [''T1'', ''T2''] []) = 2
   \<and> distinct (Tokens (mk_crawler [''T1'', ''T2''] []))
   \<and> new_events (mk_world None [''d@x.com''] [''T1'', ''T2''])
      (snd (snd (QueryProfileWithRetryLogic env_429 NewQueryService ''d@x.com''
                   (mk_crawler [''T1'', ''T2''] []) (mk_world None [''d@x.com''] [''T1'', ''T2'']))))
     = [Request ''d@x.com'' ''T1'' (Response 429 None),
        Request ''d@x.com'' ''T2'' (Response 200 (Some ''{}''))]
   \<and> tokens_tbl (snd (snd (QueryProfileWithRetryLogic env_429 NewQueryService ''d@x.com''
                   (mk_crawler [''T1'', ''T2''] []) (mk_world None [''d@x.com''] [''T1'', ''T2'']))))
     = [mk_token_row ''T1'', mk_token_row ''T2'']
   \<and> InvalidTokens (fst (snd (QueryProfileWithRetryLogic env_429 NewQueryService ''d@x.com''
                   (mk_crawler [''T1'', ''T2''] []) (mk_world None [''d@x.com''] [''T1'', ''T2''])))) ''T1''
   \<and> GetValidTokenCount (mk_crawler [''T1''] []) = 1
   \<and> new_events (mk_world None [''d@x.com''] [''T1''])
      (snd (snd (QueryProfileWithRetryLogic env_429 NewQueryService ''d@x.com''
                   (mk_crawler [''T1''] []) (mk_world None [''d@x.com''] [''T1'']))))
     = [Request ''d@x.com'' ''T1'' (Response 429 None), Sleep 1000,
        Request ''d@x.com'' ''T1'' (Response 429 None)]"
proof -
  let ?lc = "mk_crawler [''T1'', ''T2''] []" and ?w = "mk_world None [''d@x.com''] [''T1'', ''T2'']"
  let ?lc1 = "mk_crawler [''T1''] []" and ?w1 = "mk_world None [''d@x.com''] [''T1'']"
  have h1: "\<not> AllTokensFailed ?lc" "\<not> AllTokensFailed ?lc1"
    by (simp_all add: mk_crawler_def)
  have h2: "admit env_429 (clock ?w) = Admitted" "admit env_429 (clock ?w1) = Admitted"
    by (simp_all add: env_429_def mk_env_def)
  have h3: "endpoint env_429 (clock ?w + 2) ''d@x.com'' (GetToken (rnd env_429 (Suc (clock ?w))) ?lc)
              = Response 429 None"
    "endpoint env_429 (clock ?w1 + 2) ''d@x.com'' (GetToken (rnd env_429 (Suc (clock ?w1))) ?lc1)
              = Response 429 None"
    by (simp_all add: env_429_def run_defs)
  have c: "GetValidTokenCount ?lc = 2" "GetValidTokenCount ?lc1 = 1" "distinct (Tokens ?lc)"
    "[] \<notin> set (Tokens ?lc)"
    by (simp_all add: run_defs)
  have t2: "GetToken (rnd env_429 (clock ?w + 3))
              (MarkTokenAsInvalid (GetToken (rnd env_429 (Suc (clock ?w))) ?lc) ?lc) = ''T2''"
    "GetToken (rnd env_429 (Suc (clock ?w))) ?lc = ''T1''"
    "GetToken (rnd env_429 (Suc (clock ?w1))) ?lc1 = ''T1''"
    by (simp_all add: env_429_def run_defs)
  have e: "endpoint env_429 (clock ?w + 4) ''d@x.com'' ''T2'' = Response 200 (Some ''{}'')"
    "endpoint env_429 (clock ?w1 + 3) ''d@x.com'' ''T1'' = Response 429 None"
    by (simp_all add: env_429_def run_defs)
  have tt: "tokens_tbl ?w = [mk_token_row ''T1'', mk_token_row ''T2'']"
    by (simp add: mk_world_def)
  note a = C3_rate_limited_query [where env = env_429 and lc = ?lc and w = ?w and email = "''d@x.com''"
      and qs = NewQueryService and content = None, OF h1(1) h2(1) h3(1)]
  note b = C3_rate_limited_query [where env = env_429 and lc = ?lc1 and w = ?w1 and email = "''d@x.com''"
      and qs = NewQueryService and content = None, OF h1(2) h2(2) h3(2)]
  have a': "InvalidTokens (MarkTokenAsInvalid ''T1'' ?lc) ''T1''"
    by (simp add: MarkTokenAsInvalid_def)
  from a b h1 h2 c t2 e tt a' show ?thesis by simp
qed

text \<open>
  C3 (counterexample). A pool that holds the same credential twice counts two valid
  entries. After the 429 the credential is marked invalid, the next pick falls back to
  the same credential, and the guard \<open>newToken != token\<close> skips the second request: the
  query is not reissued.
\<close>

theorem C3_duplicate_pool_counterexample:
  "GetValidTokenCount (mk_crawler [''T1'', ''T1''] []) = 2
   \<and> new_events (mk_world None [''d@x.com''] [''T1''])
      (snd (snd (QueryProfileWithRetryLogic env_429 NewQueryService ''d@x.com''
                   (mk_crawler [''T1'', ''T1''] []) (mk_world None [''d@x.com''] [''T1'']))))
     = [Request ''d@x.com'' ''T1'' (Response 429 None)]
   \<and> q_statusCode (fst (QueryProfileWithRetryLogic env_429 NewQueryService ''d@x.com''
                   (mk_crawler [''T1'', ''T1''] []) (mk_world None [''d@x.com''] [''T1'']))) = 429"
  by (simp add: run_defs env_429_def)

section \<open>Properties of the retry state machine\<close>

lemma doQueryProfile_eq:
  "doQueryProfile env email token w =
     (reply_result (endpoint env (clock w) email token),
      tick (emit (Request email token (endpoint env (clock w) email token)) w))"
  by (cases "endpoint env (clock w) email token" rule: reply_result.cases)
     (simp_all add: doQueryProfile_def Let_def)

lemma status_reply_result: "q_statusCode (reply_result resp) = status_of resp"
  by (cases resp rule: reply_result.cases) (simp_all add: failed_query_def)

lemma attempts_of_append: "attempts_of (xs @ ys) = attempts_of xs @ attempts_of ys"
  by (induction xs rule: attempts_of.induct) simp_all

lemma RemoveTokenFromFile_frame:
  "emails_tbl (snd (RemoveTokenFromFile env ts token w)) = emails_tbl w"
  "hit_txt (snd (RemoveTokenFromFile env ts token w)) = hit_txt w"
  "shutdownRequested (snd (RemoveTokenFromFile env ts token w)) = shutdownRequested w"
  "crawler (snd (RemoveTokenFromFile env ts token w)) = crawler w"
  by (simp_all add: RemoveTokenFromFile_def InvalidateToken_def Let_def emit_def tick_def)

lemma query_post_request:
  assumes "events w1 = events w @ evs" "attempts_of evs = []"
    and "emails_tbl w1 = emails_tbl w" "hit_txt w1 = hit_txt w"
    and "shutdownRequested w1 = shutdownRequested w" "crawler w1 = crawler w"
  shows "query_post email w (reply_result resp) (tick (emit (Request email token resp) w1))"
proof -
  have "status_of resp = 200 \<Longrightarrow> \<exists>content. resp = Response 200 content"
    by (cases resp) auto
  then show ?thesis
    using assms unfolding query_post_def
    by (intro conjI exI [of _ "evs @ [Request email token resp]"])
       (auto simp: tick_simps emit_simps attempts_of_append probes_of_append status_reply_result)
qed

lemma query_post_other:
  assumes "events w1 = events w @ evs" "attempts_of evs = []"
    and "emails_tbl w1 = emails_tbl w" "hit_txt w1 = hit_txt w"
    and "shutdownRequested w1 = shutdownRequested w" "crawler w1 = crawler w"
    and "q_statusCode r \<noteq> 200"
  shows "query_post email w r w1"
  using assms unfolding query_post_def by auto

lemma QueryProfileWithRetryLogic_post:
  assumes "QueryProfileWithRetryLogic env qs email lc w = (r, lc', w1)"
  shows "query_post email w r w1"
proof (cases "AllTokensFailed lc")
  case True
  with assms have "r = failed_query 0 ErrAllTokensFailed" "w1 = w"
    by (simp_all add: QueryProfileWithRetryLogic_def)
  then show ?thesis
    by (intro query_post_other [where evs = "[]"]) (simp_all add: failed_query_def)
next
  case latch: False
  show ?thesis
  proof (cases "admit env (clock w)")
    case RateWaitCancelled
    with assms latch have "r = failed_query 0 ErrContext" "w1 = tick w"
      by (simp_all add: QueryProfileWithRetryLogic_def)
    then show ?thesis
      by (intro query_post_other [where evs = "[]"]) (simp_all add: failed_query_def tick_simps)
  next
    case SemaphoreFailed
    with assms latch have "r = failed_query 0 ErrSemaphore" "w1 = tick w"
      by (simp_all add: QueryProfileWithRetryLogic_def)
    then show ?thesis
      by (intro query_post_other [where evs = "[]"]) (simp_all add: failed_query_def tick_simps)
  next
    case Admitted
    define t1 where "t1 = GetToken (rnd env (Suc (clock w))) lc"
    define resp1 where "resp1 = endpoint env (clock w + 2) email t1"
    define wA where "wA = tick (emit (Request email t1 resp1) (tick (tick w)))"
    have q1: "doQueryProfile env email t1 (tick (tick w)) = (reply_result resp1, wA)"
      by (simp add: doQueryProfile_eq resp1_def wA_def tick_simps)
    have fA: "events wA = events w @ [Request email t1 resp1]" "emails_tbl wA = emails_tbl w"
      "hit_txt wA = hit_txt w" "shutdownRequested wA = shutdownRequested w" "crawler wA = crawler w"
      by (simp_all add: wA_def tick_simps emit_simps)
    have first: "query_post email w (reply_result resp1) wA"
      unfolding wA_def
      by (rule query_post_request [where evs = "[]"]) (simp_all add: tick_simps)
    note unfold = QueryProfileWithRetryLogic_def Let_def t1_def [symmetric] tick_simps
    consider (r429) "status_of resp1 = 429"
      | (hard) "status_of resp1 = 401 \<or> status_of resp1 = 424"
      | (other) "status_of resp1 \<noteq> 429" "status_of resp1 \<noteq> 401" "status_of resp1 \<noteq> 424"
      by blast
    then show ?thesis
    proof cases
      case r429
      show ?thesis
      proof (cases "GetValidTokenCount lc > 1")
        case many: True
        define t2 where "t2 = GetToken (rnd env (clock wA)) (MarkTokenAsInvalid t1 lc)"
        show ?thesis
        proof (cases "t2 \<noteq> [] \<and> t2 \<noteq> t1")
          case True
          define resp2 where "resp2 = endpoint env (clock (tick wA)) email t2"
          have q2: "doQueryProfile env email t2 (tick wA)
                      = (reply_result resp2, tick (emit (Request email t2 resp2) (tick wA)))"
            by (simp add: doQueryProfile_eq resp2_def)
          have "r = reply_result resp2" "w1 = tick (emit (Request email t2 resp2) (tick wA))"
            using assms latch Admitted q1 r429 many True q2
            by (simp_all add: unfold status_reply_result t2_def [symmetric])
          then show ?thesis
            using fA
            by (simp only:)
               (rule query_post_request [where evs = "[Request email t1 resp1]"],
                simp_all add: tick_simps)
        next
          case False
          have "r = reply_result resp1" "w1 = tick wA"
            using assms latch Admitted q1 r429 many False
            by (auto simp: unfold status_reply_result t2_def [symmetric])
          then show ?thesis
            using fA r429
            by (intro query_post_other [where evs = "[Request email t1 resp1]"])
               (simp_all add: tick_simps status_reply_result)
        qed
      next
        case one: False
        define resp2 where "resp2 = endpoint env (clock (sleep_ms 1000 wA)) email t1"
        have q2: "doQueryProfile env email t1 (sleep_ms 1000 wA)
                    = (reply_result resp2, tick (emit (Request email t1 resp2) (sleep_ms 1000 wA)))"
          by (simp add: doQueryProfile_eq resp2_def)
        have "r = reply_result resp2" "w1 = tick (emit (Request email t1 resp2) (sleep_ms 1000 wA))"
          using assms latch Admitted q1 r429 one q2
          by (simp_all add: unfold status_reply_result)
        then show ?thesis
          using fA
          by (simp only:)
             (rule query_post_request [where evs = "[Request email t1 resp1, Sleep 1000]"],
              simp_all add: sleep_ms_def emit_simps)
      qed
    next
      case hard
      define lcB where "lcB = MarkTokenAsInvalid t1 lc"
      define wB where "wB = snd (RemoveTokenFromFile env (qs_tokenStorage qs) t1 wA)"
      have fB: "events wB = events w @ [Request email t1 resp1, RemoveToken t1]"
        "emails_tbl wB = emails_tbl w" "hit_txt wB = hit_txt w"
        "shutdownRequested wB = shutdownRequested w" "crawler wB = crawler w"
        by (simp_all add: wB_def RemoveTokenFromFile_frame RemoveTokenFromFile_events fA)
      have n429: "status_of resp1 \<noteq> 429" "status_of resp1 \<noteq> 200" using hard by auto
      show ?thesis
      proof (cases "fst (CheckIfAllTokensInvalid lcB)")
        case True
        have "r = failed_query (status_of resp1) ErrAllTokensFailed" "w1 = wB"
          using assms latch Admitted q1 hard n429 True
          by (auto simp: unfold status_reply_result lcB_def wB_def split: prod.splits)
        then show ?thesis
          using fB n429
          by (intro query_post_other [where evs = "[Request email t1 resp1, RemoveToken t1]"])
             (simp_all add: failed_query_def)
      next
        case False
        define lcC where "lcC = snd (CheckIfAllTokensInvalid lcB)"
        define t2 where "t2 = GetToken (rnd env (clock wB)) lcC"
        show ?thesis
        proof (cases "t2 \<noteq> []")
          case True
          define resp2 where "resp2 = endpoint env (clock (tick wB)) email t2"
          have q2: "doQueryProfile env email t2 (tick wB)
                      = (reply_result resp2, tick (emit (Request email t2 resp2) (tick wB)))"
            by (simp add: doQueryProfile_eq resp2_def)
          have "r = reply_result resp2" "w1 = tick (emit (Request email t2 resp2) (tick wB))"
            using assms latch Admitted q1 hard n429 False True q2
            by (auto simp: unfold status_reply_result lcB_def wB_def lcC_def t2_def
                split: prod.splits)
          then show ?thesis
            using fB
            by (simp only:)
               (rule query_post_request [where evs = "[Request email t1 resp1, RemoveToken t1]"],
                simp_all add: tick_simps)
        next
          case noTok: False
          have "r = reply_result resp1" "w1 = tick wB"
            using assms latch Admitted q1 hard n429 False noTok
            by (auto simp: unfold status_reply_result lcB_def wB_def lcC_def t2_def
                split: prod.splits)
          then show ?thesis
            using fB n429
            by (intro query_post_other [where evs = "[Request email t1 resp1, RemoveToken t1]"])
               (simp_all add: tick_simps status_reply_result)
        qed
      qed
    next
      case other
      have "r = reply_result resp1" "w1 = wA"
        using assms latch Admitted q1 other
        by (simp_all add: unfold status_reply_result)
      with first show ?thesis by simp
    qed
  qed
qed

lemma store_op_events:
  "events (snd (UpdateEmailStatus env email st w)) = events w"
  "events (snd (UpdateEmailWithProfile env email profile w)) = events w"
  "events (snd (IncrementRetryCount env email msg w)) = events w"
  "events (snd (WriteProfileToFile env email profile w)) = events w"
  "events (add_Success w) = events w" "events (add_Failed w) = events w"
  by (simp_all add: UpdateEmailStatus_def UpdateEmailWithProfile_def IncrementRetryCount_def
      WriteProfileToFile_def add_Success_def add_Failed_def tick_def Let_def split: option.split)

lemma on_status_200_events: "events (on_status_200 env email r w) = events w"
  by (simp add: on_status_200_def Let_def case_prod_beta store_op_events)

lemma loop_post_prefix:
  assumes post: "loop_post env email m (a + 1) wX res w'"
    and ev: "events wX = events w @ evs1"
    and at: "length (attempts_of evs1) \<le> 1" "200 \<notin> set (attempts_of evs1)"
    and frame: "emails_tbl wX = emails_tbl w" "hit_txt wX = hit_txt w"
    and le: "a \<le> m"
  shows "loop_post env email m a w res w'"
proof -
  from post obtain evs where e:
    "events w' = events wX @ evs"
    "length (attempts_of evs) \<le> nat (m + 1 - (a + 1))"
    "res = Some False \<longrightarrow>
       length (attempts_of evs) < nat (m + 1 - (a + 1)) \<and> 200 \<notin> set (attempts_of evs)
       \<and> emails_tbl w' = emails_tbl wX \<and> hit_txt w' = hit_txt wX"
    "res = None \<longrightarrow>
       200 \<notin> set (attempts_of evs) \<and> emails_tbl w' = emails_tbl wX \<and> hit_txt w' = hit_txt wX"
    "res = Some True \<longrightarrow>
       200 \<in> set (attempts_of evs)
       \<and> (\<exists>w2 token content.
             w' = on_status_200 env email (reply_result (Response 200 content)) w2
           \<and> emails_tbl w2 = emails_tbl wX \<and> hit_txt w2 = hit_txt wX
           \<and> probes_of evs \<noteq> []
           \<and> last (probes_of evs) = (token, Response 200 content))"
    unfolding loop_post_def by blast
  have n: "nat (m + 1 - a) = Suc (nat (m + 1 - (a + 1)))" using le by simp
  show ?thesis
    unfolding loop_post_def
  proof (intro exI [of _ "evs1 @ evs"] conjI impI)
    show "events w' = events w @ evs1 @ evs" using e(1) ev by simp
    show "length (attempts_of (evs1 @ evs)) \<le> nat (m + 1 - a)"
      using e(2) at(1) n by (simp add: attempts_of_append)
    show "length (attempts_of (evs1 @ evs)) < nat (m + 1 - a)" if "res = Some False"
      using e(3) that at(1) n by (simp add: attempts_of_append)
    show "200 \<notin> set (attempts_of (evs1 @ evs))" if "res = Some False"
      using e(3) that at(2) by (simp add: attempts_of_append)
    show "emails_tbl w' = emails_tbl w" if "res = Some False" using e(3) that frame by simp
    show "hit_txt w' = hit_txt w" if "res = Some False" using e(3) that frame by simp
    show "200 \<notin> set (attempts_of (evs1 @ evs))" if "res = None"
      using e(4) that at(2) by (simp add: attempts_of_append)
    show "emails_tbl w' = emails_tbl w" if "res = None" using e(4) that frame by simp
    show "hit_txt w' = hit_txt w" if "res = None" using e(4) that frame by simp
    show "200 \<in> set (attempts_of (evs1 @ evs))" if "res = Some True"
      using e(5) that by (simp add: attempts_of_append)
    show "\<exists>w2 token content.
             w' = on_status_200 env email (reply_result (Response 200 content)) w2
           \<and> emails_tbl w2 = emails_tbl w \<and> hit_txt w2 = hit_txt w
           \<and> probes_of (evs1 @ evs) \<noteq> []
           \<and> last (probes_of (evs1 @ evs)) = (token, Response 200 content)" if "res = Some True"
      using e(5) that frame by (auto simp: probes_of_append)
  qed
qed

lemma loop_post_stop:
  assumes "a \<le> m"
  shows "loop_post env email m a w (Some False) w"
  using assms unfolding loop_post_def by (intro exI [of _ "[]"]) simp

lemma retry_loop_post:
  "retry_loop env qs email m a w = (res, w') \<Longrightarrow> loop_post env email m a w res w'"
proof (induction env qs email m a w arbitrary: res w' rule: retry_loop.induct)
  case (1 env qs email m a w)
  note run = "1.prems"
  show ?case
  proof (cases "m < a")
    case True
    with run have "res = None" "w' = w" by (simp_all add: retry_loop.simps [of env qs email m a w])
    then show ?thesis unfolding loop_post_def by (intro exI [of _ "[]"]) simp
  next
    case le: False
    show ?thesis
    proof (cases "shutdownRequested w = 1")
      case True
      with run le have "res = Some False" "w' = w" by (simp_all add: retry_loop.simps [of env qs email m a w])
      with le show ?thesis by (simp add: loop_post_stop)
    next
      case up: False
      show ?thesis
      proof (cases "crawler w")
        case None
        with run le up have "retry_loop env qs email m (a + 1) w = (res, w')"
          by (simp add: retry_loop.simps [of env qs email m a w])
        from "1.IH"(1) [OF le up None this] have post: "loop_post env email m (a + 1) w res w'" .
        show ?thesis
          by (rule loop_post_prefix [OF post, where ?evs1.0 = "[]"]) (use le in simp_all)
      next
        case (Some lc)
        show ?thesis
        proof (cases "AllTokensFailed lc")
          case True
          with run le up Some have "res = Some False" "w' = w"
            by (simp_all add: retry_loop.simps [of env qs email m a w])
          with le show ?thesis by (simp add: loop_post_stop)
        next
          case latch: False
          obtain r lc' w1 where q: "QueryProfileWithRetryLogic env qs email lc w = (r, lc', w1)"
            by (cases "QueryProfileWithRetryLogic env qs email lc w")
          define w2 where "w2 = emit (Attempt a (q_statusCode r)) (w1\<lparr>crawler := Some lc'\<rparr>)"
          from QueryProfileWithRetryLogic_post [OF q]
          obtain evsQ where p:
            "emails_tbl w1 = emails_tbl w" "hit_txt w1 = hit_txt w"
            "events w1 = events w @ evsQ" "attempts_of evsQ = []"
            "q_statusCode r = 200 \<longrightarrow>
               (\<exists>token content. probes_of evsQ \<noteq> []
                   \<and> last (probes_of evsQ) = (token, Response 200 content)
                   \<and> r = reply_result (Response 200 content))"
            unfolding query_post_def by blast
          have f2: "emails_tbl w2 = emails_tbl w" "hit_txt w2 = hit_txt w"
            "events w2 = events w @ evsQ @ [Attempt a (q_statusCode r)]"
            using p by (simp_all add: w2_def emit_simps)
          show ?thesis
          proof (cases "q_statusCode r = 200")
            case True
            with run le up Some latch q
            have out: "res = Some True" "w' = on_status_200 env email r w2"
              by (simp_all add: retry_loop.simps [of env qs email m a w] w2_def Let_def)
            from p(5) True obtain token content where l:
              "probes_of evsQ \<noteq> []" "last (probes_of evsQ) = (token, Response 200 content)"
              "r = reply_result (Response 200 content)" by blast
            show ?thesis
              unfolding loop_post_def
            proof (intro exI [of _ "evsQ @ [Attempt a (q_statusCode r)]"] conjI impI)
              show "events w' = events w @ evsQ @ [Attempt a (q_statusCode r)]"
                by (simp add: out on_status_200_events f2)
              show "length (attempts_of (evsQ @ [Attempt a (q_statusCode r)])) \<le> nat (m + 1 - a)"
                using le p(4) by (simp add: attempts_of_append)
              show "200 \<in> set (attempts_of (evsQ @ [Attempt a (q_statusCode r)]))"
                using True by (simp add: attempts_of_append)
              show "\<exists>w2 token content.
                      w' = on_status_200 env email (reply_result (Response 200 content)) w2
                    \<and> emails_tbl w2 = emails_tbl w \<and> hit_txt w2 = hit_txt w
                    \<and> probes_of (evsQ @ [Attempt a (q_statusCode r)]) \<noteq> []
                    \<and> last (probes_of (evsQ @ [Attempt a (q_statusCode r)])) = (token, Response 200 content)"
                using out l f2 by (intro exI [of _ w2] exI [of _ token] exI [of _ content])
                  (simp add: probes_of_append)
            qed (simp_all add: out)
          next
            case no200: False
            show ?thesis
            proof (cases "a < m")
              case True
              define wX where "wX = sleep_ms (200 + rnd env (clock w2) mod 401) (tick w2)"
              from run le up Some latch q no200 True
              have rec: "retry_loop env qs email m (a + 1) wX = (res, w')"
                by (simp add: retry_loop.simps [of env qs email m a w] w2_def wX_def Let_def)
              have post: "loop_post env email m (a + 1) wX res w'"
                using "1.IH"(2) [OF le up Some latch q [symmetric] refl w2_def no200 True]
                  rec
                by (simp add: wX_def)
              show ?thesis
                by (rule loop_post_prefix [OF post, where ?evs1.0 = "evsQ @ [Attempt a (q_statusCode r),
                                             Sleep (200 + rnd env (clock w2) mod 401)]"])
                   (use le f2 p(4) no200 in
                     \<open>simp_all add: wX_def sleep_ms_def emit_simps tick_simps attempts_of_append\<close>)
            next
              case False
              from run le up Some latch q no200 False
              have rec: "retry_loop env qs email m (a + 1) w2 = (res, w')"
                by (simp add: retry_loop.simps [of env qs email m a w] w2_def Let_def)
              have post: "loop_post env email m (a + 1) w2 res w'"
                using "1.IH"(3) [OF le up Some latch q [symmetric] refl w2_def no200 False] rec
                by simp
              show ?thesis
                by (rule loop_post_prefix [OF post, where ?evs1.0 = "evsQ @ [Attempt a (q_statusCode r)]"])
                   (use le f2 p(4) no200 in \<open>simp_all add: attempts_of_append\<close>)
            qed
          qed
        qed
      qed
    qed
  qed
qed

lemma store_op_tables:
  "db_ok env (clock w) \<Longrightarrow>
     emails_tbl (snd (UpdateEmailStatus env email st w)) = rows_with_status email st (emails_tbl w)"
  "db_ok env (clock w) \<Longrightarrow>
     emails_tbl (snd (UpdateEmailWithProfile env email profile w))
       = rows_with_profile email profile (emails_tbl w)"
  "db_ok env (clock w) \<Longrightarrow>
     emails_tbl (snd (IncrementRetryCount env email msg w))
       = map (\<lambda>r. if e_email r = email
                    then r\<lparr>e_retry_count := e_retry_count r + 1, e_last_error := Some msg\<rparr>
                    else r) (emails_tbl w)"
  "emails_tbl (snd (WriteProfileToFile env email profile w)) = emails_tbl w"
  "emails_tbl (add_Success w) = emails_tbl w" "emails_tbl (add_Failed w) = emails_tbl w"
  by (simp_all add: UpdateEmailStatus_def UpdateEmailWithProfile_def IncrementRetryCount_def
      WriteProfileToFile_def add_Success_def add_Failed_def tick_def Let_def rows_with_status_def
      rows_with_profile_def split: option.split)

lemma store_op_hit:
  "hit_txt (snd (UpdateEmailStatus env email st w)) = hit_txt w"
  "hit_txt (snd (UpdateEmailWithProfile env email profile w)) = hit_txt w"
  "hit_txt (snd (IncrementRetryCount env email msg w)) = hit_txt w"
  "fs_ok env (clock w) \<Longrightarrow>
     hit_txt (snd (WriteProfileToFile env email profile w)) = hit_txt w @ profile_line email profile"
  "hit_txt (add_Success w) = hit_txt w" "hit_txt (add_Failed w) = hit_txt w"
  by (simp_all add: UpdateEmailStatus_def UpdateEmailWithProfile_def IncrementRetryCount_def
      WriteProfileToFile_def add_Success_def add_Failed_def tick_def Let_def split: option.split)


lemma rows_failed_once_eq:
  "map (\<lambda>r. if e_email r = email
             then r\<lparr>e_retry_count := e_retry_count r + 1,
                    e_last_error := Some ''Failed after max retries''\<rparr>
             else r) (rows_with_status email EmailStatusFailed rows) = rows_failed_once email rows"
  by (simp add: rows_with_status_def rows_failed_once_def)

lemma retryEmailWithNewLogic_loop:
  assumes run: "retryEmailWithNewLogic env qs email m w = (done, w')"
  shows "\<exists>res wL. loop_post env email m 1 w res wL \<and> events w' = events wL
    \<and> (res = Some True \<longrightarrow> done \<and> w' = wL)
    \<and> (res = Some False \<longrightarrow> \<not> done \<and> w' = wL)
    \<and> (res = None \<longrightarrow> \<not> done \<and>
           w' = add_Failed (snd (IncrementRetryCount env email ''Failed after max retries''
                  (snd (UpdateEmailStatus env email EmailStatusFailed wL)))))"
proof -
  obtain res wL where l: "retry_loop env qs email m 1 w = (res, wL)"
    by (cases "retry_loop env qs email m 1 w")
  have p: "loop_post env email m 1 w res wL" by (rule retry_loop_post [OF l])
  have a: "res = Some b \<Longrightarrow> done = b \<and> w' = wL" for b
    using run l by (simp add: retryEmailWithNewLogic_def)
  have n: "res = None \<Longrightarrow> \<not> done \<and>
           w' = add_Failed (snd (IncrementRetryCount env email ''Failed after max retries''
                  (snd (UpdateEmailStatus env email EmailStatusFailed wL))))"
    using run l by (auto simp: retryEmailWithNewLogic_def Let_def case_prod_beta)
  have e: "events w' = events wL"
    using a n by (cases res) (auto simp: store_op_events)
  show ?thesis
    using p e a n by (intro exI [of _ res] exI [of _ wL]) auto
qed

text \<open>
  C2. A run of \<open>retryEmailWithNewLogic\<close> that records \<open>maxRetries\<close> attempts (five in the
  worker's call), none of which ended with status 200, returns \<open>false\<close> and, the store
  accepting the writes, leaves the email's row with status \<open>failed\<close>, \<open>retry_count\<close> raised by
  exactly one and \<open>last_error\<close> set to \<open>Failed after max retries\<close>; every other row and the
  output file are unchanged.
\<close>

theorem C2_exhausted_run_failed_once:
  assumes run: "retryEmailWithNewLogic env qs email maxRetries w = (done, w')"
    and count: "length (attempts_of (new_events w w')) = nat maxRetries"
    and no200: "200 \<notin> set (attempts_of (new_events w w'))"
    and db: "\<forall>n. db_ok env n"
  shows "\<not> done \<and> emails_tbl w' = rows_failed_once email (emails_tbl w) \<and> hit_txt w' = hit_txt w"
proof -
  from retryEmailWithNewLogic_loop [OF run] obtain res wL where l:
    "loop_post env email maxRetries 1 w res wL" "events w' = events wL"
    "res = Some True \<longrightarrow> done \<and> w' = wL"
    "res = Some False \<longrightarrow> \<not> done \<and> w' = wL"
    "res = None \<longrightarrow> \<not> done \<and>
           w' = add_Failed (snd (IncrementRetryCount env email ''Failed after max retries''
                  (snd (UpdateEmailStatus env email EmailStatusFailed wL))))"
    by blast
  from l(1) obtain evs where e:
    "events wL = events w @ evs"
    "res = Some False \<longrightarrow> length (attempts_of evs) < nat (maxRetries + 1 - 1)"
    "res = None \<longrightarrow> emails_tbl wL = emails_tbl w \<and> hit_txt wL = hit_txt w"
    "res = Some True \<longrightarrow> 200 \<in> set (attempts_of evs)"
    unfolding loop_post_def by blast
  have n: "new_events w w' = evs" using e(1) l(2) by (simp add: new_events_def)
  have "res = None"
  proof (cases res)
    case None
    then show ?thesis .
  next
    case (Some b)
    then show ?thesis using e(2,4) n count no200 by (cases b) auto
  qed
  with l(5) e(3) db show ?thesis
    by (simp add: store_op_tables store_op_hit rows_failed_once_eq)
qed


text \<open>The definitions a concrete run of the retry machine unfolds.\<close>

lemmas retry_defs = retryEmailWithNewLogic_def retry_loop.simps on_status_200_def
  UpdateEmailStatus_def UpdateEmailWithProfile_def IncrementRetryCount_def WriteProfileToFile_def
  add_Success_def add_Failed_def

lemma run_500_attempts:
  "attempts_of (new_events world_e
      (snd (retryEmailWithNewLogic env_500 NewQueryService ''e@x.com'' 5 world_e)))
     = [500, 500, 500, 500, 500]"
  by (simp add: retry_defs run_defs env_500_def world_e_def)

lemma run_500_rows:
  "emails_tbl (snd (retryEmailWithNewLogic env_500 NewQueryService ''e@x.com'' 5 world_e))
     = [(mk_row ''e@x.com'')\<lparr>e_status := EmailStatusFailed, e_retry_count := 1,
                               e_last_error := Some ''Failed after max retries''\<rparr>]"
  by (simp add: retry_defs run_defs env_500_def world_e_def)

theorem C2_exhausted_run_witness:
  "attempts_of (new_events world_e
      (snd (retryEmailWithNewLogic env_500 NewQueryService ''e@x.com'' 5 world_e)))
     = [500, 500, 500, 500, 500]
   \<and> \<not> fst (retryEmailWithNewLogic env_500 NewQueryService ''e@x.com'' 5 world_e)
   \<and> emails_tbl (snd (retryEmailWithNewLogic env_500 NewQueryService ''e@x.com'' 5 world_e))
     = [(mk_row ''e@x.com'')\<lparr>e_status := EmailStatusFailed, e_retry_count := 1,
                               e_last_error := Some ''Failed after max retries''\<rparr>]
   \<and> emails_tbl world_e = [mk_row ''e@x.com'']
   \<and> e_retry_count (mk_row ''e@x.com'') = 0"
proof -
  let ?X = "retryEmailWithNewLogic env_500 NewQueryService ''e@x.com'' 5 world_e"
  have run: "?X = (fst ?X, snd ?X)" by simp
  have count: "length (attempts_of (new_events world_e (snd ?X))) = nat 5"
    by (simp add: run_500_attempts)
  have no200: "200 \<notin> set (attempts_of (new_events world_e (snd ?X)))"
    by (simp add: run_500_attempts)
  have db: "\<forall>n. db_ok env_500 n"
    by (simp add: env_500_def mk_env_def)
  note t = C2_exhausted_run_failed_once [OF run count no200 db]
  have rows: "emails_tbl world_e = [mk_row ''e@x.com'']"
    by (simp add: world_e_def mk_world_def)
  have r: "rows_failed_once ''e@x.com'' [mk_row ''e@x.com'']
      = [(mk_row ''e@x.com'')\<lparr>e_status := EmailStatusFailed, e_retry_count := 1,
                               e_last_error := Some ''Failed after max retries''\<rparr>]"
    by (simp add: rows_failed_once_def mk_row_def)
  from t rows r run_500_attempts show ?thesis
    by (simp add: mk_row_def)
qed

lemma run_200_a:
  "hit_txt (snd (retryEmailWithNewLogic env_200 NewQueryService ''a@x.com'' 5 world_ab))
     = ''a@x.com|Alice|lnk/a||'' @ [CHR 0x0A]"
  by (simp add: retry_defs run_defs env_200_def world_ab_def by_email_def body_alice_def
      ExtractProfileData_def decode_table_def data_alice_def zero_ProfileData_def profile_line_def)






section \<open>The import of the email list at a comment line\<close>

lemma Split_comment_with_comma:
  "Split comment_with_comma (CHR 0x0A) = [''# list, a@x.com'', ''b@x.com'', []]"
  by (simp add: comment_with_comma_def)

text \<open>
  C6 (the code at the failing input). The file holds the comment line \<open># list, a@x.com\<close>
  and the line \<open>b@x.com\<close>. The claim keeps the entries of the lines that do not begin with
  \<open>#\<close>: \<open>b@x.com\<close> alone. \<open>ImportEmailsFromFile\<close> tests the \<open>#\<close> on what follows the first
  comma, not on the line, so importing into the empty table and reading the pending set
  gives \<open>a@x.com\<close> as well.
\<close>

theorem C6_comment_line_with_comma_imported:
  "fst (GetPendingEmails (mk_env (by_token [])) 0
      (snd (ImportEmailsFromFile (mk_env (by_token [])) (Some comment_with_comma) (mk_world None [] []))))
    = Inr [''a@x.com'', ''b@x.com'']
   \<and> spec_pending comment_with_comma = [''b@x.com'']"
  by (simp add: GetPendingEmails_def ImportEmailsFromFile_def ImportEmails_def Split_comment_with_comma
      mk_env_def mk_world_def mk_row_def tick_def insert_or_ignore_def TrimSpace_def space1_def
      space2_def space3_def after_first_def HasPrefix_def spec_pending_def spec_entry_def)

section \<open>Properties of the retry sweep\<close>

lemma progressing_Cons:
  "0 < snd p \<Longrightarrow> snd p < fst p \<Longrightarrow> progressing ps \<Longrightarrow> progressing (p # ps)"
  by (cases ps) simp_all

lemma RetryFailedEmails_loop_passes:
  "RetryFailedEmails_loop ops m i s passes = (err, s', passes') \<Longrightarrow>
   \<exists>new. passes' = passes @ new \<and> length new \<le> nat (m + 1 - i) \<and> progressing new"
proof (induction ops m i s passes arbitrary: err s' passes' rule: RetryFailedEmails_loop.induct)
  case (1 ops m i s passes)
  note run = "1.prems"
  note unfold = RetryFailedEmails_loop.simps [of ops m i s passes]
  have none: ?case if "passes' = passes"
    using that by (intro exI [of _ "[]"]) simp
  show ?case
  proof (cases "m < i")
    case True
    with run have "passes' = passes" by (simp add: unfold)
    then show ?thesis by (rule none)
  next
    case le: False
    obtain l0 s0 where load: "LoadEmailsFromFile ops s = (l0, s0)"
      by (cases "LoadEmailsFromFile ops s")
    show ?thesis
    proof (cases l0)
      case (Inl e)
      with run le load have "passes' = passes" by (simp add: unfold)
      then show ?thesis by (rule none)
    next
      case (Inr retryEmails)
      show ?thesis
      proof (cases "length retryEmails = 0")
        case True
        with run le load Inr have "passes' = passes" by (simp add: unfold)
        then show ?thesis by (rule none)
      next
        case nonempty: False
        obtain t1 s1 where tok: "tokens_for_retry ops s0 = (t1, s1)"
          by (cases "tokens_for_retry ops s0")
        show ?thesis
        proof (cases t1)
          case (Inl stop)
          with run le load Inr nonempty tok have "passes' = passes" by (simp add: unfold)
          then show ?thesis by (rule none)
        next
          case existing: (Inr existingTokens)
          obtain v2 s2 where val: "validateExistingTokens ops existingTokens s1 = (v2, s2)"
            by (cases "validateExistingTokens ops existingTokens s1")
          show ?thesis
          proof (cases v2)
            case (Inl e)
            with run le load Inr nonempty tok existing val have "passes' = passes"
              by (simp add: unfold)
            then show ?thesis by (rule none)
          next
            case valid: (Inr validTokens)
            show ?thesis
            proof (cases "length validTokens = 0")
              case True
              with run le load Inr nonempty tok existing val valid have "passes' = passes"
                by (simp add: unfold)
              then show ?thesis by (rule none)
            next
              case some_valid: False
              obtain e3 s3 where init: "initializeCrawler ops validTokens s2 = (e3, s3)"
                by (cases "initializeCrawler ops validTokens s2")
              show ?thesis
              proof (cases e3)
                case (Some e)
                with run le load Inr nonempty tok existing val valid some_valid init
                have "passes' = passes" by (simp add: unfold)
                then show ?thesis by (rule none)
              next
                case None
                define before where "before = length retryEmails"
                define s4 where "s4 = close_crawler ops (crawlWithCurrentTokens ops retryEmails s3)"
                obtain l5 s5 where load2: "LoadEmailsFromFile ops s4 = (l5, s5)"
                  by (cases "LoadEmailsFromFile ops s4")
                define after where "after = length (case l5 of Inl e \<Rightarrow> [] | Inr l \<Rightarrow> l)"
                note ctx = le load Inr nonempty tok existing val valid some_valid init None
                show ?thesis
                proof (cases "after = 0 \<or> after \<ge> before")
                  case True
                  with run ctx load2 have "passes' = passes @ [(before, after)]"
                    by (auto simp: unfold Let_def before_def after_def s4_def split: if_splits)
                  then show ?thesis
                    using le by (intro exI [of _ "[(before, after)]"]) simp
                next
                  case False
                  with run ctx load2
                  have rec: "RetryFailedEmails_loop ops m (i + 1) s5 (passes @ [(before, after)])
                               = (err, s', passes')"
                    by (auto simp: unfold Let_def before_def after_def s4_def split: if_splits)
                  have n0: "after \<noteq> 0" and lt: "\<not> before \<le> after" using False by auto
                  from "1.IH" [OF le load [symmetric] Inr nonempty tok [symmetric] existing
                      val [symmetric] valid some_valid init [symmetric] None before_def s4_def
                      refl load2 [symmetric] after_def refl n0 lt rec]
                  obtain new where n:
                    "passes' = (passes @ [(before, after)]) @ new"
                    "length new \<le> nat (m + 1 - (i + 1))" "progressing new"
                    by blast
                  show ?thesis
                    using n le False
                    by (intro exI [of _ "(before, after) # new"]) (simp add: progressing_Cons)
                qed
              qed
            qed
          qed
        qed
      qed
    qed
  qed
qed

text \<open>
  C8. Whatever the operations it drives do, \<open>RetryFailedEmails\<close> runs at most 7 passes of
  the worker pool; every pass that is followed by another one left a remaining count that
  is positive and below the count before it (so the sweep stops at the first pass after
  which nothing remains or the count has not gone down); and when the list read at the
  start is empty, no pass is run.
\<close>

theorem C8_sweep_bounded:
  "length (snd (snd (RetryFailedEmails ops s))) \<le> 7
   \<and> progressing (snd (snd (RetryFailedEmails ops s)))
   \<and> (fst (LoadEmailsFromFile ops s) = Inr [] \<longrightarrow> snd (snd (RetryFailedEmails ops s)) = [])"
proof -
  obtain err s' passes where r: "RetryFailedEmails ops s = (err, s', passes)"
    by (cases "RetryFailedEmails ops s") auto
  from RetryFailedEmails_loop_passes [of ops 7 1 s "[]" err s' passes] r
  have a: "length passes \<le> 7" "progressing passes"
    by (auto simp: RetryFailedEmails_def)
  have b: "passes = []" if "fst (LoadEmailsFromFile ops s) = Inr []"
    using that r
    by (cases "LoadEmailsFromFile ops s")
       (simp add: RetryFailedEmails_def RetryFailedEmails_loop.simps [of ops 7 1 s "[]"])
  from a b show ?thesis by (simp add: r)
qed

lemma sweep_done_in_one:
  "snd (snd (RetryFailedEmails (toy_sweep (\<lambda>n. 0)) 10)) = [(10, 0)]"
  by (simp add: RetryFailedEmails_def RetryFailedEmails_loop.simps toy_sweep_def tokens_for_retry_def)

lemma sweep_seven:
  "snd (snd (RetryFailedEmails (toy_sweep (\<lambda>n. n - 1)) 100)) =
   [(100, 99), (99, 98), (98, 97), (97, 96), (96, 95), (95, 94), (94, 93)]"
  by (simp add: RetryFailedEmails_def RetryFailedEmails_loop.simps toy_sweep_def tokens_for_retry_def)

lemma sweep_no_progress:
  "snd (snd (RetryFailedEmails (toy_sweep (\<lambda>n. n)) 10)) = [(10, 10)]"
  by (simp add: RetryFailedEmails_def RetryFailedEmails_loop.simps toy_sweep_def tokens_for_retry_def)

lemma sweep_empty:
  "snd (snd (RetryFailedEmails (toy_sweep (\<lambda>n. n)) 0)) = []"
  by (simp add: RetryFailedEmails_def RetryFailedEmails_loop.simps toy_sweep_def tokens_for_retry_def)

theorem C8_sweep_witness:
  "fst (LoadEmailsFromFile (toy_sweep (\<lambda>n. n)) 0) = Inr []
   \<and> snd (snd (RetryFailedEmails (toy_sweep (\<lambda>n. n)) 0)) = []
   \<and> snd (snd (RetryFailedEmails (toy_sweep (\<lambda>n. 0)) 10)) = [(10, 0)]
   \<and> snd (snd (RetryFailedEmails (toy_sweep (\<lambda>n. n)) 10)) = [(10, 10)]
   \<and> length (snd (snd (RetryFailedEmails (toy_sweep (\<lambda>n. n - 1)) 100))) = 7
   \<and> progressing (snd (snd (RetryFailedEmails (toy_sweep (\<lambda>n. n - 1)) 100)))"
proof -
  have h: "fst (LoadEmailsFromFile (toy_sweep (\<lambda>n. n)) 0) = Inr []"
    by (simp add: toy_sweep_def)
  from C8_sweep_bounded [of "toy_sweep (\<lambda>n. n)" 0] h
  have a: "snd (snd (RetryFailedEmails (toy_sweep (\<lambda>n. n)) 0)) = []" by blast
  from C8_sweep_bounded [of "toy_sweep (\<lambda>n. n - 1)" 100]
  have b: "progressing (snd (snd (RetryFailedEmails (toy_sweep (\<lambda>n. n - 1)) 100)))" by blast
  from h a b sweep_done_in_one sweep_no_progress sweep_seven show ?thesis by simp
qed

section \<open>Properties of the shutdown hook\<close>

lemma set_add_failed: "set (add_failed failed remaining) = set remaining \<union> set failed"
  by (induction failed arbitrary: remaining) auto

lemma SaveStateOnShutdown_eq:
  "SaveStateOnShutdown ac fs =
     (add_failed (ac_failedEmails ac)
        (filter (\<lambda>email. email \<notin> set (ac_successEmailsWithData ac)
                       \<and> email \<notin> set (ac_successEmailsWithoutData ac)
                       \<and> email \<notin> set (ac_permanentFailed ac)) (ac_totalEmails ac)), fs)"
  by (simp add: SaveStateOnShutdown_def WriteEmailsToFile_def Let_def)

text \<open>
  C9 (amended). Once a signal has arrived the handler stores 1 in the shutdown flag, runs
  the hook, sleeps the configured pause and exits with code 0. The hook
  \<open>SaveStateOnShutdown\<close> computes the remaining list, made of the loaded emails that are in
  none of the with-data, without-data and permanent maps, and of the emails of the failed
  map, and hands it to \<open>WriteEmailsToFile\<close>, which does nothing: the files after the hook
  are the files before it.
\<close>

theorem C9_shutdown_hook_leaves_files:
  "snd (SaveStateOnShutdown ac fs) = fs
   \<and> set (fst (SaveStateOnShutdown ac fs)) =
        (set (ac_totalEmails ac) - set (ac_successEmailsWithData ac) - set (ac_successEmailsWithoutData ac)
           - set (ac_permanentFailed ac)) \<union> set (ac_failedEmails ac)
   \<and> ac_shutdownRequested (fst (on_signal d ac fs)) = 1
   \<and> fst (snd (on_signal d ac fs)) = fs
   \<and> snd (snd (on_signal d ac fs)) = [SleepFor d, Exit 0]"
  by (auto simp: SaveStateOnShutdown_eq on_signal_def Let_def set_add_failed)

text \<open>
  C9 (counterexample). Two in-memory states over the same files, one with \<open>a@x.com\<close>
  done and one with \<open>b@x.com\<close> done: the hook computes two different remaining lists and
  leaves the same files (the untouched \<open>emails.txt\<close> with both addresses) in both runs.
  Nothing durable records the computed list.
\<close>

theorem C9_nothing_recorded_counterexample:
  "fst (SaveStateOnShutdown (mem_state [''a@x.com'', ''b@x.com''] [''a@x.com'']) files_ab) = [''b@x.com'']
   \<and> fst (SaveStateOnShutdown (mem_state [''a@x.com'', ''b@x.com''] [''b@x.com'']) files_ab) = [''a@x.com'']
   \<and> snd (SaveStateOnShutdown (mem_state [''a@x.com'', ''b@x.com''] [''a@x.com'']) files_ab) = files_ab
   \<and> snd (SaveStateOnShutdown (mem_state [''a@x.com'', ''b@x.com''] [''b@x.com'']) files_ab) = files_ab
   \<and> files_ab ''emails.txt'' = Some (''a@x.com'' @ [CHR 0x0A] @ ''b@x.com'' @ [CHR 0x0A])"
  by (simp add: SaveStateOnShutdown_def WriteEmailsToFile_def mem_state_def files_ab_def)

end
